theory Spec2Isabelle
  imports Complex_Main
begin

section \<open>The batched WebGL graphics context of Excalibur\<close>

text \<open>
  A shallow embedding of \<^verbatim>\<open>ExcaliburGraphicsContextWebGL\<close>
  (\<^verbatim>\<open>src/engine/Graphics/Context/ExcaliburGraphicsContextWebGL.ts\<close>).
  The class mutates its fields; here every method takes the context and returns the
  updated one. JavaScript numbers are modelled as real numbers: the rounding of IEEE
  doubles, and of the stores into the \<^verbatim>\<open>Float32Array\<close>, is not modelled.

  The collaborators the class imports (\<^verbatim>\<open>Batch\<close>, \<^verbatim>\<open>Pool\<close>,
  \<^verbatim>\<open>MatrixStack\<close>, \<^verbatim>\<open>StateStack\<close>, \<^verbatim>\<open>DrawImageCommand\<close>,
  \<^verbatim>\<open>TextureManager\<close>, \<^verbatim>\<open>ensurePowerOfTwo\<close>) are not among the sources.
  Each is modelled from the specification, and marked so.
\<close>

subsection \<open>Drawables and textures\<close>

text \<open>
  The backing image of a drawable: its identity (the key of the texture cache) and its
  integer dimensions.
\<close>

record image_source =
  src_id :: nat
  src_width :: nat
  src_height :: nat

record graphic =
  getSource :: image_source
  g_width :: real
  g_height :: real

text \<open>A GPU texture handle is an object, never a number or a boolean.\<close>

datatype WebGLTexture = WebGLTexture nat

subsection \<open>TextureManager\<close>

text \<open>
  Modelled from the spec: the class \<^verbatim>\<open>TextureManager\<close> (texture-manager.ts) is
  missing. Section 4.2: a cache from the identity of a drawable's backing image to the
  uploaded GPU texture handle; the first reference creates the handle and caches it;
  drawables that share an image share the texture; nothing is evicted. A new handle is
  numbered by a counter.
\<close>

record texture_manager =
  cache :: "nat \<rightharpoonup> WebGLTexture"
  next_handle :: nat

definition getWebGLTexture :: "texture_manager \<Rightarrow> graphic \<Rightarrow> WebGLTexture option" where
  "getWebGLTexture tm g = cache tm (src_id (getSource g))"

definition hasWebGLTexture :: "texture_manager \<Rightarrow> graphic \<Rightarrow> bool" where
  "hasWebGLTexture tm g = (case getWebGLTexture tm g of None \<Rightarrow> False | Some t \<Rightarrow> True)"

definition loadWebGLTexture :: "texture_manager \<Rightarrow> graphic \<Rightarrow> WebGLTexture \<times> texture_manager" where
  "loadWebGLTexture tm g =
     (case getWebGLTexture tm g of
        Some t \<Rightarrow> (t, tm)
      | None \<Rightarrow>
          (WebGLTexture (next_handle tm),
           tm\<lparr>cache := (cache tm)(src_id (getSource g) \<mapsto> WebGLTexture (next_handle tm)),
              next_handle := Suc (next_handle tm)\<rparr>))"

text \<open>
  The textures a sequence of drawables resolves to, each loaded in turn: what a
  sequence of draw calls references.
\<close>

fun referenced_textures :: "texture_manager \<Rightarrow> graphic list \<Rightarrow> WebGLTexture list" where
  "referenced_textures tm [] = []"
| "referenced_textures tm (g # gs) =
     fst (loadWebGLTexture tm g) # referenced_textures (snd (loadWebGLTexture tm g)) gs"

subsection \<open>Matrix, MatrixStack and StateStack\<close>

text \<open>
  Modelled from the spec: \<^verbatim>\<open>Matrix\<close> (Math/matrix.ts) is missing. A 2D affine
  transform; \<open>translate\<close>, \<open>rotate\<close> and \<open>scale\<close> post-multiply (section 4.5).
\<close>

record matrix =
  m_a :: real
  m_b :: real
  m_c :: real
  m_d :: real
  m_tx :: real
  m_ty :: real

definition identity :: matrix where
  "identity = \<lparr>m_a = 1, m_b = 0, m_c = 0, m_d = 1, m_tx = 0, m_ty = 0\<rparr>"

definition multm :: "matrix \<Rightarrow> matrix \<Rightarrow> matrix" where
  "multm p q =
     \<lparr>m_a = m_a p * m_a q + m_c p * m_b q,
      m_b = m_b p * m_a q + m_d p * m_b q,
      m_c = m_a p * m_c q + m_c p * m_d q,
      m_d = m_b p * m_c q + m_d p * m_d q,
      m_tx = m_a p * m_tx q + m_c p * m_ty q + m_tx p,
      m_ty = m_b p * m_tx q + m_d p * m_ty q + m_ty p\<rparr>"

definition multv :: "matrix \<Rightarrow> real \<times> real \<Rightarrow> real \<times> real" where
  "multv p v =
     (m_a p * fst v + m_c p * snd v + m_tx p, m_b p * fst v + m_d p * snd v + m_ty p)"

definition matrix_translate :: "matrix \<Rightarrow> real \<Rightarrow> real \<Rightarrow> matrix" where
  "matrix_translate p x y =
     multm p \<lparr>m_a = 1, m_b = 0, m_c = 0, m_d = 1, m_tx = x, m_ty = y\<rparr>"

definition matrix_rotate :: "matrix \<Rightarrow> real \<Rightarrow> matrix" where
  "matrix_rotate p angle =
     multm p \<lparr>m_a = cos angle, m_b = sin angle, m_c = - sin angle, m_d = cos angle,
              m_tx = 0, m_ty = 0\<rparr>"

definition matrix_scale :: "matrix \<Rightarrow> real \<Rightarrow> real \<Rightarrow> matrix" where
  "matrix_scale p x y =
     multm p \<lparr>m_a = x, m_b = 0, m_c = 0, m_d = y, m_tx = 0, m_ty = 0\<rparr>"

text \<open>
  Modelled from the spec: \<^verbatim>\<open>MatrixStack\<close> (matrix-stack.ts) and
  \<^verbatim>\<open>StateStack\<close> (state-stack.ts) are missing. Sections 3 and 4.5: a stack of
  frames whose top is the current frame; \<open>save\<close> duplicates the current frame and
  pushes it, \<open>restore\<close> pops, discarding the top frame and exposing the previous one.
  The record keeps the top frame in its own field and the frames below it in a list.
  The spec does not say what \<open>restore\<close> does when no frame was saved: the model
  returns \<open>None\<close> there.
\<close>

record matrix_stack =
  transform :: matrix
  saved_transforms :: "matrix list"

record graphics_state =
  opacity :: real
  z :: real

record state_stack =
  current :: graphics_state
  saved_states :: "graphics_state list"

definition matrix_stack_save :: "matrix_stack \<Rightarrow> matrix_stack" where
  "matrix_stack_save s = s\<lparr>saved_transforms := transform s # saved_transforms s\<rparr>"

definition matrix_stack_restore :: "matrix_stack \<Rightarrow> matrix_stack option" where
  "matrix_stack_restore s =
     (case saved_transforms s of
        [] \<Rightarrow> None
      | t # ts \<Rightarrow> Some (s\<lparr>transform := t, saved_transforms := ts\<rparr>))"

definition state_stack_save :: "state_stack \<Rightarrow> state_stack" where
  "state_stack_save s = s\<lparr>saved_states := current s # saved_states s\<rparr>"

definition state_stack_restore :: "state_stack \<Rightarrow> state_stack option" where
  "state_stack_restore s =
     (case saved_states s of
        [] \<Rightarrow> None
      | t # ts \<Rightarrow> Some (s\<lparr>current := t, saved_states := ts\<rparr>))"

subsection \<open>DrawImageCommand\<close>

text \<open>
  Modelled from the spec: \<^verbatim>\<open>DrawImageCommand\<close> (command.ts) is missing. The
  fields are the ones \<^verbatim>\<open>_updateVertexBufferData\<close> reads: \<open>image\<close>,
  \<open>view\<close> (source rectangle x, y, w, h), \<open>dest\<close> (x, y), \<open>width\<close>, \<open>height\<close>,
  \<open>geometry\<close> (six vertices, two triangles), \<open>z\<close> and \<open>opacity\<close>. \<open>init\<close>
  overwrites every field (section 3), following the overloads of \<open>drawImage\<close>: with
  nine arguments the first four are the source rectangle and the last four the
  destination; otherwise \<open>sx, sy\<close> is the destination and \<open>swidth, sheight\<close> its
  size. The order of the corners is the one the comments of
  \<^verbatim>\<open>_updateVertexBufferData\<close> give. \<open>applyTransform\<close> maps the six vertices
  through the transform and stores opacity and depth.
\<close>

type_synonym vertex = "real \<times> real"

record command =
  c_image :: graphic
  c_width :: real
  c_height :: real
  c_view :: "real \<times> real \<times> real \<times> real"
  c_dest :: "real \<times> real"
  c_geometry :: "vertex \<times> vertex \<times> vertex \<times> vertex \<times> vertex \<times> vertex"
  c_z :: real
  c_opacity :: real

record draw_args =
  arg_sx :: real
  arg_sy :: real
  arg_swidth :: "real option"
  arg_sheight :: "real option"
  arg_dx :: "real option"
  arg_dy :: "real option"
  arg_dwidth :: "real option"
  arg_dheight :: "real option"

definition quad_geometry ::
  "real \<Rightarrow> real \<Rightarrow> real \<Rightarrow> real \<Rightarrow> vertex \<times> vertex \<times> vertex \<times> vertex \<times> vertex \<times> vertex" where
  "quad_geometry x y w h =
     ((x, y), (x, y + h), (x + w, y), (x + w, y), (x, y + h), (x + w, y + h))"

definition or_else :: "'a option \<Rightarrow> 'a \<Rightarrow> 'a" where
  "or_else v d = (case v of None \<Rightarrow> d | Some x \<Rightarrow> x)"

definition init :: "graphic \<Rightarrow> draw_args \<Rightarrow> command" where
  "init g args =
     (let w = or_else (arg_swidth args) (g_width g);
          h = or_else (arg_sheight args) (g_height g)
      in case (arg_dx args, arg_dy args, arg_dwidth args, arg_dheight args) of
        (Some x, Some y, Some dw, Some dh) \<Rightarrow>
          \<lparr>c_image = g, c_width = dw, c_height = dh,
           c_view = (arg_sx args, arg_sy args, w, h),
           c_dest = (x, y),
           c_geometry = quad_geometry x y dw dh,
           c_z = 0, c_opacity = 1\<rparr>
      | _ \<Rightarrow>
          \<lparr>c_image = g, c_width = w, c_height = h,
           c_view = (0, 0, w, h),
           c_dest = (arg_sx args, arg_sy args),
           c_geometry = quad_geometry (arg_sx args) (arg_sy args) w h,
           c_z = 0, c_opacity = 1\<rparr>)"

definition applyTransform :: "command \<Rightarrow> matrix \<Rightarrow> real \<Rightarrow> real \<Rightarrow> command" where
  "applyTransform c m op depth =
     (case c_geometry c of
        (v0, v1, v2, v3, v4, v5) \<Rightarrow>
          c\<lparr>c_geometry :=
              (multv m v0, multv m v1, multv m v2, multv m v3, multv m v4, multv m v5),
            c_z := depth, c_opacity := op\<rparr>)"

subsection \<open>Pool\<close>

text \<open>
  Modelled from the spec: \<^verbatim>\<open>Pool\<close> (pool.ts) is missing. Sections 3 and 4.4: a
  free list of reusable instances and a factory. \<open>get\<close> returns a previously freed
  instance, reset, or a new one from the factory when none is free; a reset instance
  has the state of a new one, so the model returns the factory's value in both cases.
  \<open>free\<close> puts an instance on the free list. \<open>in_use\<close> counts the instances
  handed out and not yet freed.
\<close>

record 'a pool =
  free_list :: "'a list"
  in_use :: nat

definition pool_get :: "'a \<Rightarrow> 'a pool \<Rightarrow> 'a \<times> 'a pool" where
  "pool_get fresh p = (fresh, \<lparr>free_list = tl (free_list p), in_use = Suc (in_use p)\<rparr>)"

definition pool_free :: "'a \<Rightarrow> 'a pool \<Rightarrow> 'a pool" where
  "pool_free x p = \<lparr>free_list = x # free_list p, in_use = in_use p - 1\<rparr>"

subsection \<open>Batch\<close>

text \<open>
  Modelled from the spec: \<^verbatim>\<open>Batch\<close> (batch.ts) is missing. Sections 3 and 4.3:
  the commands in insertion order and the distinct textures they reference, in
  insertion order. \<open>maybeAdd\<close> returns false, changing nothing, if adding the command's
  texture would make the number of distinct textures exceed \<open>maxGPUTextures\<close>, or if
  the batch holds \<open>maxDrawingsPerBatch\<close> commands; otherwise it registers the texture
  (once) and appends the command. \<open>add\<close> registers and appends without a check.
  The two limits are the context's: the pool's factory passes them to every batch.
\<close>

record batch =
  commands :: "command list"
  textures :: "WebGLTexture list"

definition new_batch :: batch where
  "new_batch = \<lparr>commands = [], textures = []\<rparr>"

definition add :: "texture_manager \<Rightarrow> batch \<Rightarrow> command \<Rightarrow> batch \<times> texture_manager" where
  "add tm b c =
     (let t = fst (loadWebGLTexture tm (c_image c)) in
      (\<lparr>commands = commands b @ [c],
        textures = (if t \<in> set (textures b) then textures b else textures b @ [t])\<rparr>,
       snd (loadWebGLTexture tm (c_image c))))"

definition rejects :: "nat \<Rightarrow> nat \<Rightarrow> texture_manager \<Rightarrow> batch \<Rightarrow> command \<Rightarrow> bool" where
  "rejects maxDraws maxTextures tm b c =
     (let t = fst (loadWebGLTexture tm (c_image c)) in
      (t \<notin> set (textures b) \<and> maxTextures < Suc (length (textures b))) \<or>
      length (commands b) = maxDraws)"

definition maybeAdd ::
  "nat \<Rightarrow> nat \<Rightarrow> texture_manager \<Rightarrow> batch \<Rightarrow> command \<Rightarrow> bool \<times> batch \<times> texture_manager" where
  "maybeAdd maxDraws maxTextures tm b c =
     (if rejects maxDraws maxTextures tm b c then (False, b, tm)
      else (True, add tm b c))"

subsection \<open>Helpers of the vertex packing\<close>

text \<open>
  Modelled from the spec: \<^verbatim>\<open>ensurePowerOfTwo\<close> (webgl-util.ts) is missing.
  Section 4.1: the next power of two greater than or equal to the dimension. The search
  doubles a candidate, starting from 1.
\<close>

function nextPowerOfTwoFrom :: "nat \<Rightarrow> nat \<Rightarrow> nat" where
  "nextPowerOfTwoFrom p n = (if p = 0 \<or> n \<le> p then p else nextPowerOfTwoFrom (2 * p) n)"
  by pat_completeness auto
termination
  by (relation "measure (\<lambda>(p, n). n - p)") auto

declare nextPowerOfTwoFrom.simps [simp del]

definition ensurePowerOfTwo :: "real \<Rightarrow> real" where
  "ensurePowerOfTwo x = real (nextPowerOfTwoFrom 1 (nat \<lceil>x\<rceil>))"

text \<open>
  \<^verbatim>\<open>a || b\<close> where \<open>a\<close> is an integer dimension: \<open>b\<close> when \<open>a\<close> is zero.
\<close>

definition js_or :: "nat \<Rightarrow> real \<Rightarrow> real" where
  "js_or a b = (if a = 0 then b else real a)"

text \<open>
  \<^verbatim>\<open>~~x\<close>: the double bitwise complement converts to a signed 32-bit integer,
  truncating towards zero and wrapping modulo \<open>2^32\<close>.
\<close>

definition toInt32 :: "real \<Rightarrow> real" where
  "toInt32 x =
     (let t = (if x < 0 then \<lceil>x\<rceil> else \<lfloor>x\<rfloor>);
          m = t mod 4294967296
      in real_of_int (if 2147483648 \<le> m then m - 4294967296 else m))"

text \<open>\<^verbatim>\<open>Array.prototype.indexOf\<close>: the first position of a value, or \<open>-1\<close>.\<close>

fun indexOf :: "'a list \<Rightarrow> 'a \<Rightarrow> int" where
  "indexOf [] v = - 1"
| "indexOf (x # xs) v =
     (if x = v then 0 else if indexOf xs v < 0 then - 1 else indexOf xs v + 1)"

text \<open>
  \<^verbatim>\<open>this._verts[vertIndex++] = v\<close>, once for each value of a list. A store past
  the end of a typed array does nothing, as \<open>list_update\<close> does.
\<close>

fun write_verts :: "real list \<Rightarrow> nat \<Rightarrow> real list \<Rightarrow> real list \<times> nat" where
  "write_verts vs i [] = (vs, i)"
| "write_verts vs i (w # ws) = write_verts (vs[i := w]) (Suc i) ws"

subsection \<open>The context\<close>

record color =
  red :: real
  green :: real
  blue :: real
  alpha :: real

record diagnostics =
  quads :: nat
  diag_batches :: nat
  uniqueTextures :: nat
  maxTexturePerDraw :: nat

text \<open>The calls made on the WebGL device during \<open>clear\<close> and \<open>flush\<close>, in order.\<close>

datatype gl_call =
    ClearColor real real real real
  | Clear
  | BindBuffer
  | BufferSubData "real list"
  | ActiveTexture nat
  | BindTexture WebGLTexture
  | DrawArrays nat

datatype log_entry = Warn string | Trace

record graphics_context =
  textureManager :: texture_manager
  stack :: matrix_stack
  state :: state_stack
  verts :: "real list"
  maxDrawingsPerBatch :: nat
  maxGPUTextures :: nat
  batches :: "batch list"
  commandPool :: "command pool"
  batchPool :: "batch pool"
  snapToPixel :: bool
  backgroundColor :: color
  diag :: diagnostics
  gl :: "gl_call list"
  logger :: "log_entry list"
  console_trace :: bool

text \<open>A new, not yet initialised command: what the command pool's factory returns.\<close>

definition new_command :: command where
  "new_command =
     \<lparr>c_image = \<lparr>getSource = \<lparr>src_id = 0, src_width = 0, src_height = 0\<rparr>,
                 g_width = 0, g_height = 0\<rparr>,
      c_width = 0, c_height = 0, c_view = (0, 0, 0, 0), c_dest = (0, 0),
      c_geometry = ((0, 0), (0, 0), (0, 0), (0, 0), (0, 0), (0, 0)),
      c_z = 0, c_opacity = 1\<rparr>"

subsection \<open>drawImage\<close>

text \<open>
  The command of a call: taken from the pool, initialised (\<open>init\<close> overwrites every
  field, so the pooled instance leaves no trace) and transformed with the current
  transform, opacity and depth.
\<close>

definition make_command :: "graphics_context \<Rightarrow> graphic \<Rightarrow> draw_args \<Rightarrow> command" where
  "make_command ctx g args =
     applyTransform (init g args) (transform (stack ctx))
       (opacity (current (state ctx))) (z (current (state ctx)))"

text \<open>\<^verbatim>\<open>if (this._batches.length === 0) this._batches.push(this._batchPool.get())\<close>\<close>

definition open_first_batch :: "graphics_context \<Rightarrow> graphics_context" where
  "open_first_batch ctx =
     (if batches ctx = []
      then ctx\<lparr>batches := [fst (pool_get new_batch (batchPool ctx))],
               batchPool := snd (pool_get new_batch (batchPool ctx))\<rparr>
      else ctx)"

text \<open>
  The admission of a command: \<open>maybeAdd\<close> on the last batch and, when it returns
  false, \<open>add\<close> on a batch taken from the pool, which is pushed. In the source
  \<open>maybeAdd\<close> updates the last batch in place; here the updated batch replaces it.
  \<open>drawImage\<close> admits after \<open>open_first_batch\<close>, so the batch list is not empty
  and has a last batch.
\<close>

definition admit :: "command \<Rightarrow> graphics_context \<Rightarrow> graphics_context" where
  "admit command ctx =
     (let lastBatch = last (batches ctx);
          added =
            maybeAdd (maxDrawingsPerBatch ctx) (maxGPUTextures ctx) (textureManager ctx)
              lastBatch command
      in
        if fst added
        then
          ctx\<lparr>batches := butlast (batches ctx) @ [fst (snd added)],
              textureManager := snd (snd added)\<rparr>
        else
          (let newBatch = add (textureManager ctx) (fst (pool_get new_batch (batchPool ctx))) command
           in ctx\<lparr>batches := batches ctx @ [fst newBatch],
                  batchPool := snd (pool_get new_batch (batchPool ctx)),
                  textureManager := snd newBatch\<rparr>))"

definition drawImage :: "graphic option \<Rightarrow> draw_args \<Rightarrow> graphics_context \<Rightarrow> graphics_context" where
  "drawImage graphic args ctx =
     (case graphic of
        None \<Rightarrow>
          ctx\<lparr>logger :=
                logger ctx @ [Warn ''Cannot draw a null or undefined image''] @
                (if console_trace ctx then [Trace] else [])\<rparr>
      | Some g \<Rightarrow>
          admit (make_command ctx g args)
            (open_first_batch
               (ctx\<lparr>commandPool := snd (pool_get new_command (commandPool ctx))\<rparr>)))"

subsection \<open>Vertex packing\<close>

text \<open>
  The 42 floats of one quad: six vertices of \<open>[x, y, z, u, v, textureId, opacity]\<close>,
  in the order \<^verbatim>\<open>_updateVertexBufferData\<close> stores them.
\<close>

definition quad_data :: "command \<Rightarrow> real \<Rightarrow> real \<Rightarrow> real \<Rightarrow> real \<Rightarrow> int \<Rightarrow> real list" where
  "quad_data command uvx0 uvy0 uvx1 uvy1 textureId =
     (case c_geometry command of
        (v0, v1, v2, v3, v4, v5) \<Rightarrow>
          [fst v0, snd v0, c_z command, uvx0, uvy0, real_of_int textureId, c_opacity command,
           fst v1, snd v1, c_z command, uvx0, uvy1, real_of_int textureId, c_opacity command,
           fst v2, snd v2, c_z command, uvx1, uvy0, real_of_int textureId, c_opacity command,
           fst v3, snd v3, c_z command, uvx1, uvy0, real_of_int textureId, c_opacity command,
           fst v4, snd v4, c_z command, uvx0, uvy1, real_of_int textureId, c_opacity command,
           fst v5, snd v5, c_z command, uvx1, uvy1, real_of_int textureId, c_opacity command])"

text \<open>
  The texture slot of a command: looked up only when the texture manager has a texture
  for the image; otherwise the variable keeps the value of the previous iteration.
\<close>

definition slot_of :: "texture_manager \<Rightarrow> batch \<Rightarrow> int \<Rightarrow> command \<Rightarrow> int" where
  "slot_of tm batch textureId command =
     (if hasWebGLTexture tm (c_image command)
      then indexOf (textures batch) (the (getWebGLTexture tm (c_image command)))
      else textureId)"

text \<open>
  One iteration of the loop of \<^verbatim>\<open>_updateVertexBufferData\<close>. The loop carries the
  buffer, \<open>vertIndex\<close> and \<open>textureId\<close>; the other variables are assigned anew in
  every iteration.
\<close>

definition pack_command ::
  "texture_manager \<Rightarrow> bool \<Rightarrow> batch \<Rightarrow> command \<Rightarrow> real list \<times> nat \<times> int \<Rightarrow> real list \<times> nat \<times> int" where
  "pack_command tm snap batch command s =
     (case s of
        (vs, vertIndex, textureId) \<Rightarrow>
          (let x = fst (c_dest command);
               y = snd (c_dest command);
               sx = fst (c_view command);
               sy = fst (snd (c_view command));
               sw = fst (snd (snd (c_view command)));
               sh = snd (snd (snd (c_view command)));
               potWidth =
                 ensurePowerOfTwo
                   (js_or (src_width (getSource (c_image command))) (c_width command));
               potHeight =
                 ensurePowerOfTwo
                   (js_or (src_height (getSource (c_image command))) (c_height command));
               textureId = slot_of tm batch textureId command;
               x = (if snap then toInt32 x else x);
               y = (if snap then toInt32 y else y);
               uvx0 = sx / potWidth;
               uvy0 = sy / potHeight;
               uvx1 = (sx + sw) / potWidth;
               uvy1 = (sy + sh) / potHeight
           in (fst (write_verts vs vertIndex (quad_data command uvx0 uvy0 uvx1 uvy1 textureId)),
               snd (write_verts vs vertIndex (quad_data command uvx0 uvy0 uvx1 uvy1 textureId)),
               textureId)))"

definition pack_batch :: "texture_manager \<Rightarrow> bool \<Rightarrow> batch \<Rightarrow> real list \<Rightarrow> real list" where
  "pack_batch tm snap batch vs =
     fst (fold (pack_command tm snap batch) (commands batch) (vs, 0, 0))"

definition updateVertexBufferData :: "batch \<Rightarrow> graphics_context \<Rightarrow> graphics_context" where
  "updateVertexBufferData batch ctx =
     ctx\<lparr>verts := pack_batch (textureManager ctx) (snapToPixel ctx) batch (verts ctx)\<rparr>"

subsection \<open>save, restore and the mutators\<close>

definition save :: "graphics_context \<Rightarrow> graphics_context" where
  "save ctx = ctx\<lparr>stack := matrix_stack_save (stack ctx), state := state_stack_save (state ctx)\<rparr>"

definition restore :: "graphics_context \<Rightarrow> graphics_context option" where
  "restore ctx =
     (case matrix_stack_restore (stack ctx) of
        None \<Rightarrow> None
      | Some st \<Rightarrow>
          (case state_stack_restore (state ctx) of
             None \<Rightarrow> None
           | Some s \<Rightarrow> Some (ctx\<lparr>stack := st, state := s\<rparr>)))"

definition translate :: "real \<Rightarrow> real \<Rightarrow> graphics_context \<Rightarrow> graphics_context" where
  "translate x y ctx =
     ctx\<lparr>stack := (stack ctx)\<lparr>transform := matrix_translate (transform (stack ctx)) x y\<rparr>\<rparr>"

definition rotate :: "real \<Rightarrow> graphics_context \<Rightarrow> graphics_context" where
  "rotate angle ctx =
     ctx\<lparr>stack := (stack ctx)\<lparr>transform := matrix_rotate (transform (stack ctx)) angle\<rparr>\<rparr>"

definition scale :: "real \<Rightarrow> real \<Rightarrow> graphics_context \<Rightarrow> graphics_context" where
  "scale x y ctx =
     ctx\<lparr>stack := (stack ctx)\<lparr>transform := matrix_scale (transform (stack ctx)) x y\<rparr>\<rparr>"

definition set_transform :: "matrix \<Rightarrow> graphics_context \<Rightarrow> graphics_context" where
  "set_transform m ctx = ctx\<lparr>stack := (stack ctx)\<lparr>transform := m\<rparr>\<rparr>"

definition set_opacity :: "real \<Rightarrow> graphics_context \<Rightarrow> graphics_context" where
  "set_opacity v ctx = ctx\<lparr>state := (state ctx)\<lparr>current := (current (state ctx))\<lparr>opacity := v\<rparr>\<rparr>\<rparr>"

definition set_z :: "real \<Rightarrow> graphics_context \<Rightarrow> graphics_context" where
  "set_z v ctx = ctx\<lparr>state := (state ctx)\<lparr>current := (current (state ctx))\<lparr>z := v\<rparr>\<rparr>\<rparr>"

subsection \<open>clear and flush\<close>

definition clear :: "graphics_context \<Rightarrow> graphics_context" where
  "clear ctx =
     ctx\<lparr>gl := gl ctx @
          [ClearColor (red (backgroundColor ctx) / 255) (green (backgroundColor ctx) / 255)
             (blue (backgroundColor ctx) / 255) (alpha (backgroundColor ctx)),
           Clear]\<rparr>"

text \<open>
  Modelled from the spec: \<^verbatim>\<open>Batch.bindTextures\<close> is missing. Section 4.3: each
  distinct texture is bound to successive texture units, in insertion order.
\<close>

definition bindTextures :: "batch \<Rightarrow> gl_call list" where
  "bindTextures batch =
     concat (map (\<lambda>p. [ActiveTexture (fst p), BindTexture (snd p)]) (enumerate 0 (textures batch)))"

text \<open>
  \<^verbatim>\<open>textures.filter((v, i, arr) => arr.indexOf(v === i)).length\<close>. The callback
  compares a texture object with its index by \<^verbatim>\<open>===\<close>, which is false for an
  object and a number; \<open>indexOf\<close> then looks for the boolean in an array of texture
  objects and returns \<open>-1\<close>; the filter keeps an element when the result is truthy,
  that is, not zero.
\<close>

definition strict_equals :: "WebGLTexture \<Rightarrow> nat \<Rightarrow> bool" where
  "strict_equals v i = False"

definition indexOf_boolean :: "WebGLTexture list \<Rightarrow> bool \<Rightarrow> int" where
  "indexOf_boolean arr v = - 1"

definition truthy :: "int \<Rightarrow> bool" where
  "truthy n = (n \<noteq> 0)"

definition filter_unique :: "WebGLTexture list \<Rightarrow> WebGLTexture list" where
  "filter_unique arr =
     map fst
       (filter (\<lambda>p. truthy (indexOf_boolean arr (strict_equals (fst p) (snd p))))
          (zip arr [0 ..< length arr]))"

text \<open>One iteration of the loop of \<open>flush\<close>, which also collects the textures.\<close>

definition flush_batch ::
  "batch \<Rightarrow> graphics_context \<times> WebGLTexture list \<Rightarrow> graphics_context \<times> WebGLTexture list" where
  "flush_batch batch s =
     (let ctx = updateVertexBufferData batch (fst s);
          vertexCount = 6 * length (commands batch)
      in (ctx\<lparr>gl := gl ctx @ [BindBuffer, BufferSubData (verts ctx)] @ bindTextures batch @
                 [DrawArrays vertexCount],
              diag := (diag ctx)\<lparr>quads := quads (diag ctx) + length (commands batch)\<rparr>,
              commandPool := fold pool_free (commands batch) (commandPool ctx),
              batchPool := pool_free batch (batchPool ctx)\<rparr>,
          snd s @ textures batch))"

definition flush :: "graphics_context \<Rightarrow> graphics_context" where
  "flush ctx =
     (let start =
            clear
              (ctx\<lparr>diag :=
                 \<lparr>quads = 0, diag_batches = 0, uniqueTextures = 0,
                  maxTexturePerDraw = maxGPUTextures ctx\<rparr>\<rparr>);
          done_ctx = fst (fold flush_batch (batches start) (start, []));
          all_textures = snd (fold flush_batch (batches start) (start, []))
      in done_ctx
           \<lparr>diag :=
              (diag done_ctx)
                \<lparr>uniqueTextures := length (filter_unique all_textures),
                 diag_batches := length (batches done_ctx)\<rparr>,
            batches := []\<rparr>)"

subsection \<open>Sequences of calls\<close>

datatype call =
    DrawImage "graphic option" draw_args
  | Save
  | Restore
  | Translate real real
  | Rotate real
  | Scale real real
  | Transform matrix
  | SetOpacity real
  | SetZ real
  | ClearScreen

fun exec :: "call \<Rightarrow> graphics_context \<Rightarrow> graphics_context option" where
  "exec (DrawImage graphic args) ctx = Some (drawImage graphic args ctx)"
| "exec Save ctx = Some (save ctx)"
| "exec Restore ctx = restore ctx"
| "exec (Translate x y) ctx = Some (translate x y ctx)"
| "exec (Rotate angle) ctx = Some (rotate angle ctx)"
| "exec (Scale x y) ctx = Some (scale x y ctx)"
| "exec (Transform m) ctx = Some (set_transform m ctx)"
| "exec (SetOpacity v) ctx = Some (set_opacity v ctx)"
| "exec (SetZ v) ctx = Some (set_z v ctx)"
| "exec ClearScreen ctx = Some (clear ctx)"

fun run :: "call list \<Rightarrow> graphics_context \<Rightarrow> graphics_context option" where
  "run [] ctx = Some ctx"
| "run (c # cs) ctx = (case exec c ctx of None \<Rightarrow> None | Some ctx' \<Rightarrow> run cs ctx')"

subsection \<open>A context after construction\<close>

text \<open>
  The state the constructor and \<^verbatim>\<open>_init\<close> leave, with the two limits as
  parameters: the source fixes \<open>maxDrawingsPerBatch\<close> at 2000 and reads
  \<open>maxGPUTextures\<close> from the device. The vertex buffer holds \<open>6 * 7\<close> floats for each
  of \<open>maxDrawingsPerBatch\<close> quads; the command pool is warmed with
  \<open>maxDrawingsPerBatch\<close> commands. The trace of device calls starts empty here. The
  value of \<^verbatim>\<open>Color.ExcaliburBlue\<close> is not among the sources; nothing below
  depends on the colour.
\<close>

definition new_context :: "nat \<Rightarrow> nat \<Rightarrow> graphics_context" where
  "new_context maxDraws maxTextures =
     \<lparr>textureManager = \<lparr>cache = Map.empty, next_handle = 0\<rparr>,
      stack = \<lparr>transform = identity, saved_transforms = []\<rparr>,
      state = \<lparr>current = \<lparr>opacity = 1, z = 0\<rparr>, saved_states = []\<rparr>,
      verts = replicate (42 * maxDraws) 0,
      maxDrawingsPerBatch = maxDraws,
      maxGPUTextures = maxTextures,
      batches = [],
      commandPool = \<lparr>free_list = replicate maxDraws new_command, in_use = 0\<rparr>,
      batchPool = \<lparr>free_list = [], in_use = 0\<rparr>,
      snapToPixel = True,
      backgroundColor = \<lparr>red = 0, green = 0, blue = 255, alpha = 1\<rparr>,
      diag = \<lparr>quads = 0, diag_batches = 0, uniqueTextures = 0, maxTexturePerDraw = 8\<rparr>,
      gl = [],
      logger = [],
      console_trace = True\<rparr>"

text \<open>A drawable over the image \<open>i\<close> of the given size, and a call with three arguments.\<close>

definition sprite :: "nat \<Rightarrow> nat \<Rightarrow> nat \<Rightarrow> graphic" where
  "sprite i w h =
     \<lparr>getSource = \<lparr>src_id = i, src_width = w, src_height = h\<rparr>,
      g_width = real w, g_height = real h\<rparr>"

definition at_xy :: "real \<Rightarrow> real \<Rightarrow> draw_args" where
  "at_xy x y =
     \<lparr>arg_sx = x, arg_sy = y, arg_swidth = None, arg_sheight = None,
      arg_dx = None, arg_dy = None, arg_dwidth = None, arg_dheight = None\<rparr>"

text \<open>A sequence of \<open>drawImage\<close> calls, each with a drawable and its arguments.\<close>

fun drawImages :: "(graphic \<times> draw_args) list \<Rightarrow> graphics_context \<Rightarrow> graphics_context" where
  "drawImages [] ctx = ctx"
| "drawImages (call # calls) ctx = drawImages calls (drawImage (Some (fst call)) (snd call) ctx)"

subsection \<open>Predicates on calls\<close>

text \<open>The five calls that change the current transform, opacity or depth in place.\<close>

fun is_mutator :: "call \<Rightarrow> bool" where
  "is_mutator (Translate x y) = True"
| "is_mutator (Rotate angle) = True"
| "is_mutator (Scale x y) = True"
| "is_mutator (SetOpacity v) = True"
| "is_mutator (SetZ v) = True"
| "is_mutator c = False"

text \<open>A call that submits a command: \<open>drawImage\<close> with a drawable that is not null.\<close>

fun submits :: "call \<Rightarrow> bool" where
  "submits (DrawImage (Some graphic) args) = True"
| "submits c = False"

fun is_DrawArrays :: "gl_call \<Rightarrow> bool" where
  "is_DrawArrays (DrawArrays n) = True"
| "is_DrawArrays c = False"

subsection \<open>Reading the vertex buffer\<close>

text \<open>
  The buffer holds, for the quad \<open>k\<close> of a batch and its vertex \<open>v\<close>, the seven floats
  \<open>[x, y, z, u, v, textureId, opacity]\<close> from position \<open>42 * k + 7 * v\<close>.
\<close>

definition uv_at :: "real list \<Rightarrow> nat \<Rightarrow> nat \<Rightarrow> real \<times> real" where
  "uv_at vs k v = (vs ! (42 * k + 7 * v + 3), vs ! (42 * k + 7 * v + 4))"

definition slot_at :: "real list \<Rightarrow> nat \<Rightarrow> nat \<Rightarrow> real" where
  "slot_at vs k v = vs ! (42 * k + 7 * v + 5)"

definition position_at :: "real list \<Rightarrow> nat \<Rightarrow> nat \<Rightarrow> real \<times> real" where
  "position_at vs k v = (vs ! (42 * k + 7 * v), vs ! (42 * k + 7 * v + 1))"

text \<open>
  The texture coordinates of a command against the padded size: the corners of the source
  rectangle divided by the power of two that pads the width and the height of the image
  (of the command, where the image's is zero), for the six vertices in the order of the
  buffer.
\<close>

definition uvs_of :: "command \<Rightarrow> (real \<times> real) list" where
  "uvs_of command =
     (let sx = fst (c_view command);
          sy = fst (snd (c_view command));
          sw = fst (snd (snd (c_view command)));
          sh = snd (snd (snd (c_view command)));
          potWidth =
            ensurePowerOfTwo (js_or (src_width (getSource (c_image command))) (c_width command));
          potHeight =
            ensurePowerOfTwo (js_or (src_height (getSource (c_image command))) (c_height command));
          uvx0 = sx / potWidth;
          uvy0 = sy / potHeight;
          uvx1 = (sx + sw) / potWidth;
          uvy1 = (sy + sh) / potHeight
      in [(uvx0, uvy0), (uvx0, uvy1), (uvx1, uvy0), (uvx1, uvy0), (uvx0, uvy1), (uvx1, uvy1)])"

text \<open>
  The loop of \<^verbatim>\<open>_updateVertexBufferData\<close> as a whole: the slot each command is
  packed with, and the 42 floats of a command for the \<open>textureId\<close> it finds.
\<close>

fun slots :: "texture_manager \<Rightarrow> batch \<Rightarrow> int \<Rightarrow> command list \<Rightarrow> int list" where
  "slots tm batch textureId [] = []"
| "slots tm batch textureId (c # cs) =
     slot_of tm batch textureId c # slots tm batch (slot_of tm batch textureId c) cs"

definition packed_quad :: "texture_manager \<Rightarrow> batch \<Rightarrow> int \<Rightarrow> command \<Rightarrow> real list" where
  "packed_quad tm batch textureId command =
     quad_data command
       (fst (c_view command) /
          ensurePowerOfTwo (js_or (src_width (getSource (c_image command))) (c_width command)))
       (fst (snd (c_view command)) /
          ensurePowerOfTwo (js_or (src_height (getSource (c_image command))) (c_height command)))
       ((fst (c_view command) + fst (snd (snd (c_view command)))) /
          ensurePowerOfTwo (js_or (src_width (getSource (c_image command))) (c_width command)))
       ((fst (snd (c_view command)) + snd (snd (snd (c_view command)))) /
          ensurePowerOfTwo (js_or (src_height (getSource (c_image command))) (c_height command)))
       (slot_of tm batch textureId command)"

subsection \<open>Examples\<close>

text \<open>A frame used as an example: three commands, one call with a null drawable.\<close>

definition example_frame :: "call list" where
  "example_frame =
     [DrawImage (Some (sprite 1 100 37)) (at_xy 0 0),
      Translate 10 20,
      DrawImage None (at_xy 0 0),
      DrawImage (Some (sprite 1 100 37)) (at_xy 1 1),
      SetOpacity (1 / 2),
      DrawImage (Some (sprite 2 16 16)) (at_xy 2 2)]"

definition example_frame_end :: graphics_context where
  "example_frame_end =
     drawImage (Some (sprite 2 16 16)) (at_xy 2 2)
       (set_opacity (1 / 2)
          (drawImage (Some (sprite 1 100 37)) (at_xy 1 1)
             (drawImage None (at_xy 0 0)
                (translate 10 20
                   (drawImage (Some (sprite 1 100 37)) (at_xy 0 0) (new_context 2 8))))))"

text \<open>A context whose open batch holds two commands on two textures.\<close>

definition two_textures :: graphics_context where
  "two_textures =
     drawImage (Some (sprite 2 16 16)) (at_xy 1 1)
       (drawImage (Some (sprite 1 100 37)) (at_xy 0 0) (new_context 5 2))"

text \<open>One drawable of 100 by 37 pixels, drawn at a half pixel with \<open>snapToPixel\<close> on.\<close>

definition half_pixel :: graphics_context where
  "half_pixel = drawImage (Some (sprite 1 100 37)) (at_xy (1 / 2) (1 / 2)) (new_context 1 8)"

text \<open>
  A batch whose second command has an image the texture manager of \<open>two_textures\<close>
  has no texture for.
\<close>

definition stale_batch :: batch where
  "stale_batch =
     \<lparr>commands =
        [make_command two_textures (sprite 2 16 16) (at_xy 0 0),
         make_command two_textures (sprite 9 16 16) (at_xy 1 1)],
      textures = [WebGLTexture 0, WebGLTexture 1]\<rparr>"

text \<open>Three draws of one image with at most two commands in a batch.\<close>

definition three_draws :: graphics_context where
  "three_draws =
     drawImage (Some (sprite 1 100 37)) (at_xy 2 2)
       (drawImage (Some (sprite 1 100 37)) (at_xy 1 1)
          (drawImage (Some (sprite 1 100 37)) (at_xy 0 0) (new_context 2 8)))"

text \<open>Three calls on two images, and five calls on one image.\<close>

definition mixed_calls :: "(graphic \<times> draw_args) list" where
  "mixed_calls =
     [(sprite 1 100 37, at_xy 0 0), (sprite 2 16 16, at_xy 1 1), (sprite 1 100 37, at_xy 2 2)]"

definition five_calls :: "(graphic \<times> draw_args) list" where
  "five_calls =
     [(sprite 1 100 37, at_xy 0 0), (sprite 1 100 37, at_xy 1 0), (sprite 1 100 37, at_xy 2 0),
      (sprite 1 100 37, at_xy 3 0), (sprite 1 100 37, at_xy 4 0)]"

section \<open>Properties\<close>

subsection \<open>Sequences of calls\<close>

lemma run_append:
  "run (xs @ ys) ctx = (case run xs ctx of None \<Rightarrow> None | Some ctx' \<Rightarrow> run ys ctx')"
  by (induction xs arbitrary: ctx) (simp_all split: option.splits)

subsection \<open>save and restore\<close>

lemma exec_mutator:
  assumes "is_mutator c"
  shows "\<exists>ctx'. exec c ctx = Some ctx' \<and>
           saved_transforms (stack ctx') = saved_transforms (stack ctx) \<and>
           saved_states (state ctx') = saved_states (state ctx) \<and>
           (\<forall>s t. ctx'\<lparr>stack := s, state := t\<rparr> = ctx\<lparr>stack := s, state := t\<rparr>)"
  using assms
  by (cases c) (simp_all add: translate_def rotate_def scale_def set_opacity_def set_z_def)

lemma run_mutators:
  assumes "list_all is_mutator ops"
  shows "\<exists>ctx'. run ops ctx = Some ctx' \<and>
           saved_transforms (stack ctx') = saved_transforms (stack ctx) \<and>
           saved_states (state ctx') = saved_states (state ctx) \<and>
           (\<forall>s t. ctx'\<lparr>stack := s, state := t\<rparr> = ctx\<lparr>stack := s, state := t\<rparr>)"
  using assms
proof (induction ops arbitrary: ctx)
  case Nil
  then show ?case by simp
next
  case (Cons c cs)
  then have c: "is_mutator c" and cs: "list_all is_mutator cs" by simp_all
  from exec_mutator [OF c] obtain ctx1 where
    1: "exec c ctx = Some ctx1"
    and 2: "saved_transforms (stack ctx1) = saved_transforms (stack ctx)"
    and 3: "saved_states (state ctx1) = saved_states (state ctx)"
    and 4: "\<forall>s t. ctx1\<lparr>stack := s, state := t\<rparr> = ctx\<lparr>stack := s, state := t\<rparr>"
    by blast
  from Cons.IH [OF cs, of ctx1] obtain ctx2 where
    5: "run cs ctx1 = Some ctx2"
    and 6: "saved_transforms (stack ctx2) = saved_transforms (stack ctx1)"
    and 7: "saved_states (state ctx2) = saved_states (state ctx1)"
    and 8: "\<forall>s t. ctx2\<lparr>stack := s, state := t\<rparr> = ctx1\<lparr>stack := s, state := t\<rparr>"
    by blast
  show ?case using 1 2 3 4 5 6 7 8 by simp
qed

text \<open>
  Claim C5. Whatever translate, rotate, scale, opacity and depth assignments are made
  between a \<open>save\<close> and the \<open>restore\<close> that matches it, \<open>restore\<close> succeeds and gives
  back the context as it was immediately before the \<open>save\<close>: in particular the current
  transform, the opacity and the depth are the ones from before the \<open>save\<close>.
\<close>

theorem save_restore_roundtrip:
  assumes "list_all is_mutator ops"
  shows "run (Save # ops @ [Restore]) ctx = Some ctx
    \<and> map_option (\<lambda>c. (transform (stack c), opacity (current (state c)), z (current (state c))))
        (run (Save # ops @ [Restore]) ctx)
      = Some (transform (stack ctx), opacity (current (state ctx)), z (current (state ctx)))"
proof -
  from run_mutators [OF assms, of "save ctx"] obtain ctx' where
    1: "run ops (save ctx) = Some ctx'"
    and 2: "saved_transforms (stack ctx') = saved_transforms (stack (save ctx))"
    and 3: "saved_states (state ctx') = saved_states (state (save ctx))"
    and 4: "\<forall>s t. ctx'\<lparr>stack := s, state := t\<rparr> = (save ctx)\<lparr>stack := s, state := t\<rparr>"
    by blast
  have 5: "ctx'\<lparr>stack := stack ctx, state := state ctx\<rparr> = ctx"
    using 4 by (simp add: save_def)
  have a: "matrix_stack_restore (stack ctx') = Some (stack ctx)"
    using 2 by (simp add: matrix_stack_restore_def save_def matrix_stack_save_def)
  have b: "state_stack_restore (state ctx') = Some (state ctx)"
    using 3 by (simp add: state_stack_restore_def save_def state_stack_save_def)
  have "restore ctx' = Some ctx"
    using a b 5 by (simp add: restore_def)
  then have "run (Save # ops @ [Restore]) ctx = Some ctx"
    using 1 by (simp add: run_append)
  then show ?thesis by simp
qed

theorem save_restore_roundtrip_witness:
  "list_all is_mutator [Translate 1 2, Rotate 0, SetOpacity (1 / 2), Scale 2 3, SetZ 5]
   \<and> run (Save # [Translate 1 2, Rotate 0, SetOpacity (1 / 2), Scale 2 3, SetZ 5] @ [Restore])
        (new_context 2 8) = Some (new_context 2 8)"
  using save_restore_roundtrip
    [of "[Translate 1 2, Rotate 0, SetOpacity (1 / 2), Scale 2 3, SetZ 5]" "new_context 2 8"]
  by simp

subsection \<open>drawImage: what a call changes\<close>

lemma c_image_make_command [simp]: "c_image (make_command ctx g args) = g"
  by (simp add: make_command_def applyTransform_def init_def Let_def split: prod.splits option.splits)

lemma pool_get_fst [simp]: "fst (pool_get x p) = x"
  by (simp add: pool_get_def)

lemma batches_open_first_batch:
  "batches (open_first_batch ctx) = (if batches ctx = [] then [new_batch] else batches ctx)"
  by (simp add: open_first_batch_def)

lemma open_first_batch_fields [simp]:
  "textureManager (open_first_batch ctx) = textureManager ctx"
  "maxDrawingsPerBatch (open_first_batch ctx) = maxDrawingsPerBatch ctx"
  "maxGPUTextures (open_first_batch ctx) = maxGPUTextures ctx"
  "commandPool (open_first_batch ctx) = commandPool ctx"
  by (simp_all add: open_first_batch_def)

lemma batches_admit:
  "batches (admit c ctx) =
     (if rejects (maxDrawingsPerBatch ctx) (maxGPUTextures ctx) (textureManager ctx) (last (batches ctx)) c
      then batches ctx @ [fst (add (textureManager ctx) new_batch c)]
      else butlast (batches ctx) @ [fst (add (textureManager ctx) (last (batches ctx)) c)])"
  by (simp add: admit_def maybeAdd_def Let_def)

lemma textureManager_admit:
  "textureManager (admit c ctx) = snd (loadWebGLTexture (textureManager ctx) (c_image c))"
  by (simp add: admit_def maybeAdd_def Let_def add_def)

lemma batches_drawImage_Some:
  "batches (drawImage (Some g) args ctx) =
     (let bs = (if batches ctx = [] then [new_batch] else batches ctx);
          c = make_command ctx g args in
      if rejects (maxDrawingsPerBatch ctx) (maxGPUTextures ctx) (textureManager ctx) (last bs) c
      then bs @ [fst (add (textureManager ctx) new_batch c)]
      else butlast bs @ [fst (add (textureManager ctx) (last bs) c)])"
  by (simp add: drawImage_def batches_admit batches_open_first_batch Let_def)

lemma textureManager_drawImage_Some:
  "textureManager (drawImage (Some g) args ctx) = snd (loadWebGLTexture (textureManager ctx) g)"
  by (simp add: drawImage_def textureManager_admit)


lemma drawImage_stack_state [simp]:
  "stack (drawImage graphic args ctx) = stack ctx"
  "state (drawImage graphic args ctx) = state ctx"
  by (cases graphic; simp add: drawImage_def admit_def open_first_batch_def Let_def)+

text \<open>
  Claim C3. When the open (last) batch has room for more commands but already holds
  \<open>maxGPUTextures\<close> textures (the list holds each texture once), a \<open>drawImage\<close> whose
  drawable resolves to a texture that is not among them is rejected by \<open>maybeAdd\<close>:
  the batch list grows by one new batch whose only command is the new one, and the
  batches before it are unchanged.
\<close>

theorem texture_overflow_opens_batch:
  assumes "batches ctx \<noteq> []"
    and "length (commands (last (batches ctx))) < maxDrawingsPerBatch ctx"
    and "length (textures (last (batches ctx))) = maxGPUTextures ctx"
    and "fst (loadWebGLTexture (textureManager ctx) g) \<notin> set (textures (last (batches ctx)))"
  shows "fst (maybeAdd (maxDrawingsPerBatch ctx) (maxGPUTextures ctx) (textureManager ctx)
              (last (batches ctx)) (make_command ctx g args)) = False
    \<and> batches (drawImage (Some g) args ctx) =
        batches ctx @
          [\<lparr>commands = [make_command ctx g args],
            textures = [fst (loadWebGLTexture (textureManager ctx) g)]\<rparr>]"
  using assms
  by (simp add: batches_drawImage_Some maybeAdd_def rejects_def add_def new_batch_def Let_def)

theorem texture_overflow_opens_batch_witness:
  "batches two_textures \<noteq> []
   \<and> length (commands (last (batches two_textures))) < maxDrawingsPerBatch two_textures
   \<and> length (textures (last (batches two_textures))) = maxGPUTextures two_textures
   \<and> fst (loadWebGLTexture (textureManager two_textures) (sprite 3 8 8))
       \<notin> set (textures (last (batches two_textures)))
   \<and> map (map c_dest \<circ> commands)
        (batches (drawImage (Some (sprite 3 8 8)) (at_xy 2 2) two_textures)) =
       [[(0, 0), (1, 1)], [(2, 2)]]"
proof -
  have 1: "batches two_textures \<noteq> []" by code_simp
  have 2: "length (commands (last (batches two_textures))) < maxDrawingsPerBatch two_textures"
    by code_simp
  have 3: "length (textures (last (batches two_textures))) = maxGPUTextures two_textures"
    by code_simp
  have 4: "fst (loadWebGLTexture (textureManager two_textures) (sprite 3 8 8))
             \<notin> set (textures (last (batches two_textures)))"
    by code_simp
  have 5: "map (map c_dest \<circ> commands) (batches two_textures) = [[(0, 0), (1, 1)]]"
    by code_simp
  have 6: "c_dest (make_command two_textures (sprite 3 8 8) (at_xy 2 2)) = (2, 2)"
    by code_simp
  from texture_overflow_opens_batch [OF 1 2 3 4, of "at_xy 2 2"] 1 2 3 4 5 6
  show ?thesis by simp
qed

subsection \<open>flush\<close>

lemma fold_pool_free:
  "free_list (fold pool_free cs p) = rev cs @ free_list p"
  "in_use (fold pool_free cs p) = in_use p - length cs"
  by (induction cs arbitrary: p) (simp_all add: pool_free_def)

lemma is_DrawArrays_bindTextures [simp]: "filter is_DrawArrays (bindTextures b) = []"
  by (simp add: bindTextures_def filter_concat filter_empty_conv)

lemma flush_batch_fields:
  "batches (fst (flush_batch b s)) = batches (fst s)"
  "quads (diag (fst (flush_batch b s))) = quads (diag (fst s)) + length (commands b)"
  "free_list (commandPool (fst (flush_batch b s))) = rev (commands b) @ free_list (commandPool (fst s))"
  "in_use (commandPool (fst (flush_batch b s))) = in_use (commandPool (fst s)) - length (commands b)"
  "free_list (batchPool (fst (flush_batch b s))) = b # free_list (batchPool (fst s))"
  "in_use (batchPool (fst (flush_batch b s))) = in_use (batchPool (fst s)) - 1"
  "snd (flush_batch b s) = snd s @ textures b"
  "length (filter is_DrawArrays (gl (fst (flush_batch b s)))) =
     Suc (length (filter is_DrawArrays (gl (fst s))))"
  "maxTexturePerDraw (diag (fst (flush_batch b s))) = maxTexturePerDraw (diag (fst s))"
  by (simp_all add: flush_batch_def updateVertexBufferData_def Let_def fold_pool_free pool_free_def)

lemma fold_flush_batch_fields:
  "batches (fst (fold flush_batch bs s)) = batches (fst s)"
  "quads (diag (fst (fold flush_batch bs s))) = quads (diag (fst s)) + length (concat (map commands bs))"
  "free_list (commandPool (fst (fold flush_batch bs s))) =
     rev (concat (map commands bs)) @ free_list (commandPool (fst s))"
  "in_use (commandPool (fst (fold flush_batch bs s))) =
     in_use (commandPool (fst s)) - length (concat (map commands bs))"
  "free_list (batchPool (fst (fold flush_batch bs s))) = rev bs @ free_list (batchPool (fst s))"
  "in_use (batchPool (fst (fold flush_batch bs s))) = in_use (batchPool (fst s)) - length bs"
  "snd (fold flush_batch bs s) = snd s @ concat (map textures bs)"
  "length (filter is_DrawArrays (gl (fst (fold flush_batch bs s)))) =
     length (filter is_DrawArrays (gl (fst s))) + length bs"
  "maxTexturePerDraw (diag (fst (fold flush_batch bs s))) = maxTexturePerDraw (diag (fst s))"
  by (induction bs arbitrary: s) (simp_all add: flush_batch_fields)

lemma length_filter_unique [simp]: "length (filter_unique arr) = length arr"
  by (simp add: filter_unique_def truthy_def indexOf_boolean_def)

lemma flush_fields:
  "batches (flush ctx) = []"
  "quads (diag (flush ctx)) = length (concat (map commands (batches ctx)))"
  "diag_batches (diag (flush ctx)) = length (batches ctx)"
  "uniqueTextures (diag (flush ctx)) = length (concat (map textures (batches ctx)))"
  "maxTexturePerDraw (diag (flush ctx)) = maxGPUTextures ctx"
  "free_list (commandPool (flush ctx)) =
     rev (concat (map commands (batches ctx))) @ free_list (commandPool ctx)"
  "in_use (commandPool (flush ctx)) = in_use (commandPool ctx) - length (concat (map commands (batches ctx)))"
  "free_list (batchPool (flush ctx)) = rev (batches ctx) @ free_list (batchPool ctx)"
  "in_use (batchPool (flush ctx)) = in_use (batchPool ctx) - length (batches ctx)"
  "length (filter is_DrawArrays (gl (flush ctx))) =
     length (filter is_DrawArrays (gl ctx)) + length (batches ctx)"
  by (simp_all add: flush_def Let_def fold_flush_batch_fields clear_def)

lemma length_commands_add [simp]:
  "commands (fst (add tm b c)) = commands b @ [c]"
  by (simp add: add_def Let_def)

lemma concat_butlast_last:
  "bs \<noteq> [] \<Longrightarrow> concat (map f (butlast bs)) @ f (last bs) = concat (map f bs)"
  by (induction bs rule: rev_induct) simp_all

lemma drawImage_Some_commands:
  "concat (map commands (batches (drawImage (Some g) args ctx))) =
     concat (map commands (batches ctx)) @ [make_command ctx g args]"
  by (simp add: batches_drawImage_Some Let_def concat_butlast_last new_batch_def)

lemma drawImage_Some_commandPool:
  "in_use (commandPool (drawImage (Some g) args ctx)) = Suc (in_use (commandPool ctx))"
  by (simp add: drawImage_def admit_def Let_def pool_get_def open_first_batch_def)

lemma drawImage_Some_batchPool:
  "in_use (batchPool (drawImage (Some g) args ctx)) + length (batches ctx) =
     in_use (batchPool ctx) + length (batches (drawImage (Some g) args ctx))"
  by (simp add: drawImage_def admit_def Let_def pool_get_def open_first_batch_def)

lemma drawImage_None_fields:
  "batches (drawImage None args ctx) = batches ctx"
  "commandPool (drawImage None args ctx) = commandPool ctx"
  "batchPool (drawImage None args ctx) = batchPool ctx"
  by (simp_all add: drawImage_def)

lemma exec_not_submits:
  assumes "\<not> submits c" and "exec c ctx = Some ctx'"
  shows "batches ctx' = batches ctx \<and> commandPool ctx' = commandPool ctx \<and>
         batchPool ctx' = batchPool ctx"
proof (cases c)
  case (DrawImage graphic args)
  with assms show ?thesis by (cases graphic) (auto simp add: drawImage_None_fields)
next
  case Restore
  with assms show ?thesis by (auto simp add: restore_def split: option.splits)
qed (use assms in \<open>auto simp add: save_def translate_def rotate_def scale_def set_transform_def
      set_opacity_def set_z_def clear_def\<close>)

lemma exec_submits:
  assumes "submits c"
  shows "\<exists>g args. c = DrawImage (Some g) args"
  using assms by (cases c rule: submits.cases) simp_all

lemma exec_frame:
  assumes "exec c ctx = Some ctx'"
  shows "length (concat (map commands (batches ctx'))) =
           length (concat (map commands (batches ctx))) + (if submits c then 1 else 0)"
    and "in_use (commandPool ctx') = in_use (commandPool ctx) + (if submits c then 1 else 0)"
    and "in_use (batchPool ctx') + length (batches ctx) = in_use (batchPool ctx) + length (batches ctx')"
proof -
  show "length (concat (map commands (batches ctx'))) =
           length (concat (map commands (batches ctx))) + (if submits c then 1 else 0)"
  proof (cases "submits c")
    case True
    then obtain g args where "c = DrawImage (Some g) args" using exec_submits by blast
    with assms True show ?thesis by (auto simp add: drawImage_Some_commands)
  next
    case False
    with exec_not_submits [OF False assms] show ?thesis by simp
  qed
  show "in_use (commandPool ctx') = in_use (commandPool ctx) + (if submits c then 1 else 0)"
  proof (cases "submits c")
    case True
    then obtain g args where "c = DrawImage (Some g) args" using exec_submits by blast
    with assms True show ?thesis by (auto simp add: drawImage_Some_commandPool)
  next
    case False
    with exec_not_submits [OF False assms] show ?thesis by simp
  qed
  show "in_use (batchPool ctx') + length (batches ctx) = in_use (batchPool ctx) + length (batches ctx')"
  proof (cases "submits c")
    case True
    then obtain g args where "c = DrawImage (Some g) args" using exec_submits by blast
    with assms True show ?thesis using drawImage_Some_batchPool [of g args ctx] by auto
  next
    case False
    with exec_not_submits [OF False assms] show ?thesis by simp
  qed
qed

lemma run_frame:
  assumes "run calls ctx = Some ctx'"
  shows "length (concat (map commands (batches ctx'))) =
           length (concat (map commands (batches ctx))) + length (filter submits calls)
    \<and> in_use (commandPool ctx') = in_use (commandPool ctx) + length (filter submits calls)
    \<and> in_use (batchPool ctx') + length (batches ctx) = in_use (batchPool ctx) + length (batches ctx')"
  using assms
proof (induction calls arbitrary: ctx)
  case Nil
  then show ?case by simp
next
  case (Cons c cs)
  then obtain ctx1 where 1: "exec c ctx = Some ctx1" and 2: "run cs ctx1 = Some ctx'"
    by (auto split: option.splits)
  from Cons.IH [OF 2] exec_frame [OF 1] show ?case by auto
qed


text \<open>
  Claim C4. A frame starts with an empty batch list and is any sequence of calls. After
  the \<open>flush\<close> that ends it: \<open>diag.quads\<close> is the number of \<open>drawImage\<close> calls of the
  frame that had a drawable; \<open>diag.batches\<close> is the number of batches, which is the
  number of draw calls \<open>flush\<close> issued; the batch list is empty; every command of every
  batch, and every batch, is on the free list of its pool; and the number of instances
  in use is, for both pools, what it was when the frame started.
\<close>

theorem flush_frame:
  assumes "batches ctx0 = []" and "run calls ctx0 = Some ctx"
  shows "quads (diag (flush ctx)) = length (filter submits calls)
    \<and> diag_batches (diag (flush ctx)) = length (batches ctx)
    \<and> length (filter is_DrawArrays (gl (flush ctx))) =
        length (filter is_DrawArrays (gl ctx)) + diag_batches (diag (flush ctx))
    \<and> batches (flush ctx) = []
    \<and> free_list (commandPool (flush ctx)) =
        rev (concat (map commands (batches ctx))) @ free_list (commandPool ctx)
    \<and> free_list (batchPool (flush ctx)) = rev (batches ctx) @ free_list (batchPool ctx)
    \<and> in_use (commandPool (flush ctx)) = in_use (commandPool ctx0)
    \<and> in_use (batchPool (flush ctx)) = in_use (batchPool ctx0)"
  using run_frame [OF assms(2)] assms(1)
  by (simp add: flush_fields)

theorem flush_frame_witness:
  "batches (new_context 2 8) = []
   \<and> run example_frame (new_context 2 8) = Some example_frame_end
   \<and> quads (diag (flush example_frame_end)) = 3
   \<and> diag_batches (diag (flush example_frame_end)) = 2
   \<and> batches (flush example_frame_end) = []
   \<and> in_use (commandPool (flush example_frame_end)) = 0
   \<and> in_use (batchPool (flush example_frame_end)) = 0"
proof -
  have 1: "batches (new_context 2 8) = []" by (simp add: new_context_def)
  have 2: "run example_frame (new_context 2 8) = Some example_frame_end"
    by (simp add: example_frame_def example_frame_end_def)
  have 3: "length (filter submits example_frame) = 3" by (simp add: example_frame_def)
  have 4: "length (batches example_frame_end) = 2" by code_simp
  have 5: "in_use (commandPool (new_context 2 8)) = 0" "in_use (batchPool (new_context 2 8)) = 0"
    by (simp_all add: new_context_def)
  from flush_frame [OF 1 2] 1 2 3 4 5 show ?thesis by simp
qed

subsection \<open>drawImage with a null drawable\<close>

lemma drawImage_logger:
  "(drawImage graphic args (ctx\<lparr>logger := l\<rparr>))\<lparr>logger := l'\<rparr> = (drawImage graphic args ctx)\<lparr>logger := l'\<rparr>"
  by (cases graphic)
    (simp_all add: drawImage_def admit_def open_first_batch_def make_command_def Let_def)

lemma exec_logger:
  "map_option (\<lambda>x. x\<lparr>logger := l'\<rparr>) (exec c (ctx\<lparr>logger := l\<rparr>)) =
   map_option (\<lambda>x. x\<lparr>logger := l'\<rparr>) (exec c ctx)"
  by (cases c)
    (simp_all add: drawImage_logger save_def restore_def translate_def rotate_def scale_def
      set_transform_def set_opacity_def set_z_def clear_def split: option.splits)

lemma run_logger:
  "a\<lparr>logger := []\<rparr> = b\<lparr>logger := []\<rparr> \<Longrightarrow>
   map_option (\<lambda>x. x\<lparr>logger := []\<rparr>) (run cs a) = map_option (\<lambda>x. x\<lparr>logger := []\<rparr>) (run cs b)"
proof (induction cs arbitrary: a b)
  case Nil
  then show ?case by simp
next
  case (Cons c cs)
  have "b = a\<lparr>logger := logger b\<rparr>"
  proof -
    have "b = (b\<lparr>logger := []\<rparr>)\<lparr>logger := logger b\<rparr>" by simp
    also have "\<dots> = (a\<lparr>logger := []\<rparr>)\<lparr>logger := logger b\<rparr>" using Cons.prems by simp
    finally show ?thesis by simp
  qed
  then have e: "map_option (\<lambda>x. x\<lparr>logger := []\<rparr>) (exec c b) =
                map_option (\<lambda>x. x\<lparr>logger := []\<rparr>) (exec c a)"
    using exec_logger [of "[]" c "logger b" a] by simp
  show ?case
  proof (cases "exec c a")
    case None
    with e have "exec c b = None" by simp
    with None show ?thesis by simp
  next
    case (Some a1)
    with e obtain b1 where b1: "exec c b = Some b1" and eq: "a1\<lparr>logger := []\<rparr> = b1\<lparr>logger := []\<rparr>"
      by (cases "exec c b") auto
    from Cons.IH [OF eq] Some b1 show ?thesis by simp
  qed
qed

lemma flush_batch_logger:
  "flush_batch b (ctx\<lparr>logger := l\<rparr>, t) =
     ((fst (flush_batch b (ctx, t)))\<lparr>logger := l\<rparr>, snd (flush_batch b (ctx, t)))"
  by (simp add: flush_batch_def updateVertexBufferData_def Let_def)

lemma fold_flush_batch_logger:
  "fold flush_batch bs (ctx\<lparr>logger := l\<rparr>, t) =
     ((fst (fold flush_batch bs (ctx, t)))\<lparr>logger := l\<rparr>, snd (fold flush_batch bs (ctx, t)))"
proof (induction bs arbitrary: ctx t)
  case Nil
  then show ?case by simp
next
  case (Cons b bs)
  show ?case
    using Cons.IH [of "fst (flush_batch b (ctx, t))" "snd (flush_batch b (ctx, t))"]
    by (simp add: flush_batch_logger)
qed

lemma flush_logger: "flush (ctx\<lparr>logger := l\<rparr>) = (flush ctx)\<lparr>logger := l\<rparr>"
proof -
  define s where
    "s = clear (ctx\<lparr>diag := \<lparr>quads = 0, diag_batches = 0, uniqueTextures = 0,
                               maxTexturePerDraw = maxGPUTextures ctx\<rparr>\<rparr>)"
  define finish :: "graphics_context \<times> WebGLTexture list \<Rightarrow> graphics_context" where
    "finish = (\<lambda>r. (fst r)\<lparr>diag := (diag (fst r))\<lparr>uniqueTextures := length (filter_unique (snd r)),
                 diag_batches := length (batches (fst r))\<rparr>, batches := []\<rparr>)"
  have 1: "clear (ctx\<lparr>logger := l\<rparr>\<lparr>diag := \<lparr>quads = 0, diag_batches = 0, uniqueTextures = 0,
             maxTexturePerDraw = maxGPUTextures (ctx\<lparr>logger := l\<rparr>)\<rparr>\<rparr>) = s\<lparr>logger := l\<rparr>"
    by (simp add: s_def clear_def)
  have A: "flush (ctx\<lparr>logger := l\<rparr>) =
           finish (fold flush_batch (batches (s\<lparr>logger := l\<rparr>)) (s\<lparr>logger := l\<rparr>, []))"
    unfolding flush_def Let_def 1 finish_def by simp
  have B: "flush ctx = finish (fold flush_batch (batches s) (s, []))"
    unfolding flush_def Let_def s_def finish_def by simp
  have C: "finish (x\<lparr>logger := l\<rparr>, t) = (finish (x, t))\<lparr>logger := l\<rparr>" for x t
    by (simp add: finish_def)
  show ?thesis
    unfolding A B by (simp add: fold_flush_batch_logger C)
qed

lemma diag_flush_logger:
  assumes "a\<lparr>logger := []\<rparr> = b\<lparr>logger := []\<rparr>"
  shows "diag (flush a) = diag (flush b)"
proof -
  have "diag (flush a) = diag (flush (a\<lparr>logger := []\<rparr>))" by (simp add: flush_logger)
  also have "\<dots> = diag (flush (b\<lparr>logger := []\<rparr>))" using assms by simp
  also have "\<dots> = diag (flush b)" by (simp add: flush_logger)
  finally show ?thesis .
qed


text \<open>
  Claim C8. \<open>drawImage\<close> with a null or undefined drawable appends the warning to the
  log (and a console trace where the console has one) and returns: no statement of the
  branch raises, and the call changes nothing but the log. In particular the batch list
  and both pools are as before, and after any further calls the diagnostics of the next
  \<open>flush\<close> are the ones that would have been produced without the call.
\<close>

theorem drawImage_null_is_noop:
  "logger (drawImage None args ctx) =
     logger ctx @ Warn ''Cannot draw a null or undefined image'' #
       (if console_trace ctx then [Trace] else [])
   \<and> batches (drawImage None args ctx) = batches ctx
   \<and> commandPool (drawImage None args ctx) = commandPool ctx
   \<and> batchPool (drawImage None args ctx) = batchPool ctx
   \<and> (drawImage None args ctx)\<lparr>logger := logger ctx\<rparr> = ctx
   \<and> map_option (\<lambda>c. diag (flush c)) (run calls (drawImage None args ctx)) =
      map_option (\<lambda>c. diag (flush c)) (run calls ctx)"
proof -
  have eq: "(drawImage None args ctx)\<lparr>logger := []\<rparr> = ctx\<lparr>logger := []\<rparr>"
    by (simp add: drawImage_def)
  have "map_option (\<lambda>c. diag (flush c)) (run calls (drawImage None args ctx)) =
        map_option (\<lambda>c. diag (flush c)) (run calls ctx)"
  proof (cases "run calls ctx")
    case None
    with run_logger [OF eq, of calls] show ?thesis by simp
  next
    case (Some x)
    with run_logger [OF eq, of calls] obtain y where
      y: "run calls (drawImage None args ctx) = Some y" and "y\<lparr>logger := []\<rparr> = x\<lparr>logger := []\<rparr>"
      by (cases "run calls (drawImage None args ctx)") auto
    then show ?thesis using Some diag_flush_logger [of y x] by simp
  qed
  then show ?thesis by (simp add: drawImage_def)
qed

subsection \<open>Vertex packing\<close>

lemma write_verts_length [simp]: "length (fst (write_verts vs i ws)) = length vs"
  by (induction ws arbitrary: vs i) simp_all

lemma write_verts_index [simp]: "snd (write_verts vs i ws) = i + length ws"
  by (induction ws arbitrary: vs i) simp_all

lemma write_verts_below: "m < i \<Longrightarrow> fst (write_verts vs i ws) ! m = vs ! m"
  by (induction ws arbitrary: vs i) simp_all

lemma write_verts_nth:
  "j < length ws \<Longrightarrow> i + length ws \<le> length vs \<Longrightarrow> fst (write_verts vs i ws) ! (i + j) = ws ! j"
proof (induction ws arbitrary: vs i j)
  case Nil
  then show ?case by simp
next
  case (Cons w ws)
  show ?case
  proof (cases j)
    case 0
    with Cons.prems show ?thesis by (simp add: write_verts_below)
  next
    case (Suc j')
    with Cons.prems Cons.IH [of j' "Suc i" "vs[i := w]"] show ?thesis by simp
  qed
qed

lemma length_quad_data [simp]: "length (quad_data c a b d e t) = 42"
  by (simp add: quad_data_def split: prod.splits)

lemma pack_command_eq:
  "pack_command tm snap batch c (vs, i, t) =
     (fst (write_verts vs i (packed_quad tm batch t c)), i + 42, slot_of tm batch t c)"
  by (simp add: pack_command_def packed_quad_def Let_def)

lemma length_packed_quad [simp]: "length (packed_quad tm batch t c) = 42"
  by (simp add: packed_quad_def)

lemma fold_pack_length [simp]:
  "length (fst (fold (pack_command tm snap batch) cs (vs, i, t))) = length vs"
  by (induction cs arbitrary: vs i t) (simp_all add: pack_command_eq)

lemma fold_pack_below:
  "m < i \<Longrightarrow> fst (fold (pack_command tm snap batch) cs (vs, i, t)) ! m = vs ! m"
  by (induction cs arbitrary: vs i t) (simp_all add: pack_command_eq write_verts_below)

lemma fold_pack_nth:
  assumes "k < length cs" and "j < 42" and "i + 42 * length cs \<le> length vs"
    and "n = i + 42 * k + j"
  shows "fst (fold (pack_command tm snap batch) cs (vs, i, t)) ! n =
           packed_quad tm batch (if k = 0 then t else slots tm batch t cs ! (k - 1)) (cs ! k) ! j"
  using assms
proof (induction cs arbitrary: vs i t k)
  case Nil
  then show ?case by simp
next
  case (Cons c cs)
  show ?case
  proof (cases k)
    case 0
    with Cons.prems show ?thesis
      by (simp add: pack_command_eq fold_pack_below write_verts_nth)
  next
    case (Suc k')
    have n: "n = (i + 42) + 42 * k' + j" using Suc Cons.prems by simp
    have "fst (fold (pack_command tm snap batch) cs
               (fst (write_verts vs i (packed_quad tm batch t c)), i + 42, slot_of tm batch t c)) ! n =
          packed_quad tm batch
            (if k' = 0 then slot_of tm batch t c
             else slots tm batch (slot_of tm batch t c) cs ! (k' - 1)) (cs ! k') ! j"
      using Cons.prems Suc n by (intro Cons.IH) simp_all
    then show ?thesis using Suc by (cases k') (simp_all add: pack_command_eq)
  qed
qed

lemma pack_batch_nth:
  assumes "k < length (commands batch)" and "j < 42"
    and "42 * length (commands batch) \<le> length vs"
  shows "pack_batch tm snap batch vs ! (42 * k + j) =
           packed_quad tm batch (if k = 0 then 0 else slots tm batch 0 (commands batch) ! (k - 1))
             (commands batch ! k) ! j"
  using fold_pack_nth [of k "commands batch" j 0 vs "42 * k + j" tm snap batch 0] assms
  by (simp add: pack_batch_def)

lemma slots_length [simp]: "length (slots tm batch t cs) = length cs"
  by (induction cs arbitrary: t) simp_all

lemma slots_nth:
  "k < length cs \<Longrightarrow>
   slots tm batch t cs ! k =
     slot_of tm batch (if k = 0 then t else slots tm batch t cs ! (k - 1)) (cs ! k)"
proof (induction cs arbitrary: t k)
  case Nil
  then show ?case by simp
next
  case (Cons c cs)
  show ?case
  proof (cases k)
    case 0
    then show ?thesis by simp
  next
    case (Suc k')
    with Cons.prems Cons.IH [of k' "slot_of tm batch t c"] show ?thesis
      by (cases k') simp_all
  qed
qed

lemma packed_quad_uvs:
  "map (\<lambda>v. (packed_quad tm batch t c ! (7 * v + 3), packed_quad tm batch t c ! (7 * v + 4)))
     [0, 1, 2, 3, 4, 5] = uvs_of c"
  by (simp add: packed_quad_def quad_data_def uvs_of_def Let_def split: prod.splits)

lemma packed_quad_slots:
  "map (\<lambda>v. packed_quad tm batch t c ! (7 * v + 5)) [0, 1, 2, 3, 4, 5] =
     replicate 6 (real_of_int (slot_of tm batch t c))"
  by (simp add: packed_quad_def quad_data_def Let_def numeral_eq_Suc split: prod.splits)

lemma packed_quad_positions:
  "map (\<lambda>v. (packed_quad tm batch t c ! (7 * v), packed_quad tm batch t c ! (7 * v + 1)))
     [0, 1, 2, 3, 4, 5] =
   (case c_geometry c of (v0, v1, v2, v3, v4, v5) \<Rightarrow> [v0, v1, v2, v3, v4, v5])"
  by (simp add: packed_quad_def quad_data_def Let_def split: prod.splits)

lemma verts_updateVertexBufferData:
  assumes "k < length (commands batch)" and "42 * length (commands batch) \<le> length (verts ctx)"
    and "j < 42"
  shows "verts (updateVertexBufferData batch ctx) ! (42 * k + j) =
           packed_quad (textureManager ctx) batch
             (if k = 0 then 0 else slots (textureManager ctx) batch 0 (commands batch) ! (k - 1))
             (commands batch ! k) ! j"
  using assms by (simp add: updateVertexBufferData_def pack_batch_nth)


lemma nextPowerOfTwoFrom_least:
  assumes "p = 2 ^ i" and "\<forall>j. n \<le> 2 ^ j \<longrightarrow> p \<le> 2 ^ j"
  shows "\<exists>k. nextPowerOfTwoFrom p n = 2 ^ k \<and> n \<le> 2 ^ k \<and> (\<forall>j. n \<le> 2 ^ j \<longrightarrow> (2::nat) ^ k \<le> 2 ^ j)"
  using assms
proof (induction p n arbitrary: i rule: nextPowerOfTwoFrom.induct)
  case (1 p n)
  show ?case
  proof (cases "n \<le> p")
    case True
    then have "nextPowerOfTwoFrom p n = p" by (simp add: nextPowerOfTwoFrom.simps)
    with True "1.prems" show ?thesis by auto
  next
    case False
    have p0: "p \<noteq> 0" using "1.prems" by simp
    have step: "nextPowerOfTwoFrom p n = nextPowerOfTwoFrom (2 * p) n"
      using False p0 by (subst nextPowerOfTwoFrom.simps) simp
    have a: "2 * p = 2 ^ Suc i" using "1.prems" by simp
    have b: "\<forall>j. n \<le> 2 ^ j \<longrightarrow> 2 * p \<le> 2 ^ j"
    proof (intro allI impI)
      fix j assume "n \<le> 2 ^ j"
      moreover from False have "p < n" by simp
      ultimately have "p < 2 ^ j" by (rule order.strict_trans2 [rotated])
      then have "(2::nat) ^ i < 2 ^ j" using "1.prems"(1) by simp
      then have "i < j" by simp
      then have "Suc i \<le> j" by simp
      then have "(2::nat) ^ Suc i \<le> 2 ^ j" by (rule power_increasing) simp
      with a show "2 * p \<le> 2 ^ j" by simp
    qed
    from "1.IH" [OF _ a b] False p0 step show ?thesis by simp
  qed
qed

lemma ensurePowerOfTwo_least:
  "\<exists>k. ensurePowerOfTwo x = 2 ^ k \<and> x \<le> 2 ^ k \<and> (\<forall>j. x \<le> 2 ^ j \<longrightarrow> (2::real) ^ k \<le> 2 ^ j)"
proof -
  have le: "nat \<lceil>x\<rceil> \<le> 2 ^ j \<longleftrightarrow> x \<le> 2 ^ j" for j :: nat
  proof -
    have "nat \<lceil>x\<rceil> \<le> 2 ^ j \<longleftrightarrow> \<lceil>x\<rceil> \<le> 2 ^ j" by simp
    also have "\<dots> \<longleftrightarrow> x \<le> real_of_int (2 ^ j)" by (rule ceiling_le_iff)
    finally show ?thesis by simp
  qed
  have "(1::nat) = 2 ^ 0" and "\<forall>j. nat \<lceil>x\<rceil> \<le> 2 ^ j \<longrightarrow> (1::nat) \<le> 2 ^ j"
    by simp_all
  from nextPowerOfTwoFrom_least [OF this]
  obtain k where k: "nextPowerOfTwoFrom 1 (nat \<lceil>x\<rceil>) = 2 ^ k" "nat \<lceil>x\<rceil> \<le> 2 ^ k"
    "\<forall>j. nat \<lceil>x\<rceil> \<le> 2 ^ j \<longrightarrow> (2::nat) ^ k \<le> 2 ^ j"
    by blast
  have "ensurePowerOfTwo x = 2 ^ k" using k(1) by (simp add: ensurePowerOfTwo_def)
  moreover have "x \<le> 2 ^ k" using k(2) le by simp
  moreover have "\<forall>j. x \<le> 2 ^ j \<longrightarrow> (2::real) ^ k \<le> 2 ^ j"
  proof (intro allI impI)
    fix j assume "x \<le> 2 ^ j"
    then have "(2::nat) ^ k \<le> 2 ^ j" using k(3) le by simp
    then have "k \<le> j" by simp
    then show "(2::real) ^ k \<le> 2 ^ j" by simp
  qed
  ultimately show ?thesis by blast
qed

lemma ensurePowerOfTwo_100: "ensurePowerOfTwo 100 = 128"
  by code_simp

lemma ensurePowerOfTwo_37: "ensurePowerOfTwo 37 = 64"
  by code_simp

lemma pack_batch_snap: "pack_batch tm True batch vs = pack_batch tm False batch vs"
proof -
  have "pack_command tm True batch = pack_command tm False batch"
    by (intro ext) (simp add: pack_command_def Let_def split: prod.splits)
  then show ?thesis by (simp add: pack_batch_def)
qed


text \<open>
  Claim C9. For the command \<open>k\<close> of a batch that fits the buffer, the texture
  coordinates \<^verbatim>\<open>_updateVertexBufferData\<close> writes for the six vertices are the corners
  of the source rectangle divided by the padded width and height
  (\<open>ensurePowerOfTwo\<close> of the image's width and height, or of the command's where the
  image's is zero), not by the raw dimensions: for an image of 100 by 37 pixels the
  divisors are 128 and 64.
\<close>

theorem uv_against_padded_size:
  assumes "k < length (commands batch)" and "42 * length (commands batch) \<le> length (verts ctx)"
  shows "map (uv_at (verts (updateVertexBufferData batch ctx)) k) [0, 1, 2, 3, 4, 5] =
           uvs_of (commands batch ! k)
    \<and> (src_width (getSource (c_image (commands batch ! k))) = 100 \<and>
       src_height (getSource (c_image (commands batch ! k))) = 37 \<longrightarrow>
         uvs_of (commands batch ! k) =
           (case c_view (commands batch ! k) of
              (sx, sy, sw, sh) \<Rightarrow>
                [(sx / 128, sy / 64), (sx / 128, (sy + sh) / 64), ((sx + sw) / 128, sy / 64),
                 ((sx + sw) / 128, sy / 64), (sx / 128, (sy + sh) / 64),
                 ((sx + sw) / 128, (sy + sh) / 64)]))"
proof -
  let ?q = "packed_quad (textureManager ctx) batch
             (if k = 0 then 0 else slots (textureManager ctx) batch 0 (commands batch) ! (k - 1))
             (commands batch ! k)"
  have "map (uv_at (verts (updateVertexBufferData batch ctx)) k) [0, 1, 2, 3, 4, 5] =
        map (\<lambda>v. (?q ! (7 * v + 3), ?q ! (7 * v + 4))) [0, 1, 2, 3, 4, 5]"
    unfolding uv_at_def add.assoc
    using assms by (simp add: verts_updateVertexBufferData del: One_nat_def)
  then have 1: "map (uv_at (verts (updateVertexBufferData batch ctx)) k) [0, 1, 2, 3, 4, 5] =
           uvs_of (commands batch ! k)"
    by (simp only: packed_quad_uvs)
  have 2: "src_width (getSource (c_image (commands batch ! k))) = 100 \<and>
       src_height (getSource (c_image (commands batch ! k))) = 37 \<longrightarrow>
         uvs_of (commands batch ! k) =
           (case c_view (commands batch ! k) of
              (sx, sy, sw, sh) \<Rightarrow>
                [(sx / 128, sy / 64), (sx / 128, (sy + sh) / 64), ((sx + sw) / 128, sy / 64),
                 ((sx + sw) / 128, sy / 64), (sx / 128, (sy + sh) / 64),
                 ((sx + sw) / 128, (sy + sh) / 64)])"
    by (simp add: uvs_of_def js_or_def ensurePowerOfTwo_100 ensurePowerOfTwo_37 Let_def
        split: prod.splits)
  from 1 2 show ?thesis by (rule conjI)
qed

theorem uv_against_padded_size_witness:
  "0 < length (commands (hd (batches half_pixel)))
   \<and> 42 * length (commands (hd (batches half_pixel))) \<le> length (verts half_pixel)
   \<and> src_width (getSource (c_image (commands (hd (batches half_pixel)) ! 0))) = 100
   \<and> src_height (getSource (c_image (commands (hd (batches half_pixel)) ! 0))) = 37
   \<and> map (uv_at (verts (updateVertexBufferData (hd (batches half_pixel)) half_pixel)) 0)
        [0, 1, 2, 3, 4, 5] =
       [(0, 0), (0, 37 / 64), (100 / 128, 0), (100 / 128, 0), (0, 37 / 64), (100 / 128, 37 / 64)]"
proof -
  have 1: "0 < length (commands (hd (batches half_pixel)))" by code_simp
  have 2: "42 * length (commands (hd (batches half_pixel))) \<le> length (verts half_pixel)"
    by code_simp
  have 3: "src_width (getSource (c_image (commands (hd (batches half_pixel)) ! 0))) = 100"
    "src_height (getSource (c_image (commands (hd (batches half_pixel)) ! 0))) = 37"
    by code_simp+
  have 4: "c_view (commands (hd (batches half_pixel)) ! 0) = (0, 0, 100, 37)" by code_simp
  from uv_against_padded_size [OF 1 2] 1 2 3 4 show ?thesis by simp
qed

text \<open>
  Claim C10. When the texture manager has no texture for the image of the command
  \<open>k\<close>, the slot written for its six vertices is the value the variable \<open>textureId\<close>
  already holds: the slot written for the command packed before it, or 0 for the first
  command of the batch.
\<close>

theorem stale_texture_slot:
  assumes "k < length (commands batch)" and "42 * length (commands batch) \<le> length (verts ctx)"
    and "\<not> hasWebGLTexture (textureManager ctx) (c_image (commands batch ! k))"
  shows "map (slot_at (verts (updateVertexBufferData batch ctx)) k) [0, 1, 2, 3, 4, 5] =
           replicate 6
             (if k = 0 then 0 else slot_at (verts (updateVertexBufferData batch ctx)) (k - 1) 0)"
proof -
  let ?tm = "textureManager ctx"
  let ?cs = "commands batch"
  let ?vs = "verts (updateVertexBufferData batch ctx)"
  let ?inc = "\<lambda>k. if k = 0 then 0 else slots ?tm batch 0 ?cs ! (k - 1)"
  have quad: "map (slot_at ?vs m) [0, 1, 2, 3, 4, 5] =
              replicate 6 (real_of_int (slot_of ?tm batch (?inc m) (?cs ! m)))"
    if "m < length ?cs" for m
  proof -
    have "map (slot_at ?vs m) [0, 1, 2, 3, 4, 5] =
          map (\<lambda>v. packed_quad ?tm batch (?inc m) (?cs ! m) ! (7 * v + 5)) [0, 1, 2, 3, 4, 5]"
      unfolding slot_at_def add.assoc
      using that assms(2) by (simp add: verts_updateVertexBufferData del: One_nat_def)
    then show ?thesis by (simp only: packed_quad_slots)
  qed
  have kept: "slot_of ?tm batch (?inc k) (?cs ! k) = ?inc k"
    using assms(3) by (simp add: slot_of_def)
  show ?thesis
  proof (cases k)
    case 0
    with quad [of 0] kept assms(1) show ?thesis by simp
  next
    case (Suc k')
    then have k': "k' < length ?cs" using assms(1) by simp
    have "slot_at ?vs k' 0 = map (slot_at ?vs k') [0, 1, 2, 3, 4, 5] ! 0"
      by simp
    also have "\<dots> = replicate 6 (real_of_int (slot_of ?tm batch (?inc k') (?cs ! k'))) ! 0"
      by (simp only: quad [OF k'])
    also have "\<dots> = real_of_int (slot_of ?tm batch (?inc k') (?cs ! k'))"
      by simp
    also have "\<dots> = real_of_int (slots ?tm batch 0 ?cs ! k')"
      using slots_nth [OF k', of ?tm batch 0] by simp
    finally have prev: "slot_at ?vs k' 0 = real_of_int (?inc k)" using Suc by simp
    from quad [OF assms(1)] kept prev Suc show ?thesis by simp
  qed
qed

theorem stale_texture_slot_witness:
  "1 < length (commands stale_batch)
   \<and> 42 * length (commands stale_batch) \<le> length (verts two_textures)
   \<and> \<not> hasWebGLTexture (textureManager two_textures) (c_image (commands stale_batch ! 1))
   \<and> map (slot_at (verts (updateVertexBufferData stale_batch two_textures)) 0) [0, 1, 2, 3, 4, 5] =
       replicate 6 1
   \<and> map (slot_at (verts (updateVertexBufferData stale_batch two_textures)) 1) [0, 1, 2, 3, 4, 5] =
       replicate 6 1"
proof -
  have 1: "1 < length (commands stale_batch)" by code_simp
  have 2: "42 * length (commands stale_batch) \<le> length (verts two_textures)" by code_simp
  have 3: "\<not> hasWebGLTexture (textureManager two_textures) (c_image (commands stale_batch ! 1))"
    by code_simp
  have 4: "map (slot_at (verts (updateVertexBufferData stale_batch two_textures)) 0)
             [0, 1, 2, 3, 4, 5] = replicate 6 1"
    by code_simp
  have 5: "slot_at (verts (updateVertexBufferData stale_batch two_textures)) 0 0 = 1"
    by code_simp
  from stale_texture_slot [OF 1 2 3] 1 2 3 4 5 show ?thesis by simp
qed

text \<open>
  The positions written for a command are the six vertices of its geometry, whatever
  \<open>snapToPixel\<close> is.
\<close>

lemma positions_are_geometry:
  assumes "k < length (commands batch)" and "42 * length (commands batch) \<le> length (verts ctx)"
  shows "map (position_at (verts (updateVertexBufferData batch ctx)) k) [0, 1, 2, 3, 4, 5] =
           (case c_geometry (commands batch ! k) of
              (v0, v1, v2, v3, v4, v5) \<Rightarrow> [v0, v1, v2, v3, v4, v5])"
proof -
  let ?q = "packed_quad (textureManager ctx) batch
             (if k = 0 then 0 else slots (textureManager ctx) batch 0 (commands batch) ! (k - 1))
             (commands batch ! k)"
  let ?vs = "verts (updateVertexBufferData batch ctx)"
  have e: "?vs ! (42 * k + j) = ?q ! j" if "j < 42" for j
    using assms that by (rule verts_updateVertexBufferData)
  have e0: "?vs ! (42 * k) = ?q ! 0" using e [of 0] by simp
  have "map (position_at ?vs k) [0, 1, 2, 3, 4, 5] =
        map (\<lambda>v. (?q ! (7 * v), ?q ! (7 * v + 1))) [0, 1, 2, 3, 4, 5]"
    unfolding position_at_def add.assoc
    by (simp add: e e0 del: One_nat_def)
  then show ?thesis by (simp only: packed_quad_positions)
qed

text \<open>
  Claim C7 (the code differs). The positions \<^verbatim>\<open>_updateVertexBufferData\<close> writes are
  the vertices of \<open>command.geometry\<close> (\<open>positions_are_geometry\<close>); the truncated
  \<open>x\<close> and \<open>y\<close> are assigned and never read, so the flag changes nothing in the buffer
  (\<open>pack_batch_snap\<close>). With \<open>snapToPixel\<close> on, a drawable drawn at
  \<open>(1/2, 1/2)\<close> is written at \<open>(1/2, 1/2)\<close>.
\<close>

theorem snapToPixel_has_no_effect:
  "snapToPixel half_pixel
   \<and> map (position_at (verts (flush half_pixel)) 0) [0, 1, 2, 3, 4, 5] =
       [(1 / 2, 1 / 2), (1 / 2, 75 / 2), (201 / 2, 1 / 2),
        (201 / 2, 1 / 2), (1 / 2, 75 / 2), (201 / 2, 75 / 2)]"
  by code_simp

subsection \<open>The count of unique textures\<close>

text \<open>
  Claim C6 (the code differs). The filter of \<open>flush\<close> keeps every element, so
  \<open>diag.uniqueTextures\<close> is the sum of the numbers of textures of the batches
  (\<open>flush_fields\<close>). Three draws of one image, two to a batch, give two batches that
  hold the same texture: the count is 2, and there is 1 distinct texture.
\<close>

theorem uniqueTextures_counts_duplicates:
  "map textures (batches three_draws) = [[WebGLTexture 0], [WebGLTexture 0]]
   \<and> uniqueTextures (diag (flush three_draws)) = 2
   \<and> card (set (concat (map textures (batches three_draws)))) = 1"
  by code_simp

subsection \<open>Batch admission over a sequence of calls\<close>

lemma drawImage_limits [simp]:
  "maxDrawingsPerBatch (drawImage graphic args ctx) = maxDrawingsPerBatch ctx"
  "maxGPUTextures (drawImage graphic args ctx) = maxGPUTextures ctx"
  by (cases graphic; simp add: drawImage_def admit_def open_first_batch_def Let_def)+

lemma make_command_cong:
  "stack ctx' = stack ctx \<Longrightarrow> state ctx' = state ctx \<Longrightarrow>
   make_command ctx' g args = make_command ctx g args"
  by (simp add: make_command_def)

lemma drawImages_stack_state [simp]:
  "stack (drawImages calls ctx) = stack ctx"
  "state (drawImages calls ctx) = state ctx"
  by (induction calls arbitrary: ctx) simp_all

lemma drawImages_limits [simp]:
  "maxDrawingsPerBatch (drawImages calls ctx) = maxDrawingsPerBatch ctx"
  "maxGPUTextures (drawImages calls ctx) = maxGPUTextures ctx"
  by (induction calls arbitrary: ctx) simp_all

text \<open>The order of submission is the order of the commands, across the batches.\<close>

lemma drawImages_commands:
  "concat (map commands (batches (drawImages calls ctx))) =
     concat (map commands (batches ctx)) @ map (\<lambda>call. make_command ctx (fst call) (snd call)) calls"
proof (induction calls arbitrary: ctx)
  case Nil
  then show ?case by simp
next
  case (Cons call calls)
  have "make_command (drawImage (Some (fst call)) (snd call) ctx) = make_command ctx"
    by (intro ext) (simp add: make_command_def)
  then show ?case
    by (simp add: Cons.IH drawImage_Some_commands)
qed

lemma one_batch_step:
  assumes "(if batches ctx = [] then [new_batch] else batches ctx) = [b]"
    and "distinct (textures b)"
    and "length (commands b) < maxDrawingsPerBatch ctx"
    and "card (insert (fst (loadWebGLTexture (textureManager ctx) g)) (set (textures b)))
           \<le> maxGPUTextures ctx"
  shows "batches (drawImage (Some g) args ctx) = [fst (add (textureManager ctx) b (make_command ctx g args))]"
proof -
  let ?t = "fst (loadWebGLTexture (textureManager ctx) g)"
  have "\<not> rejects (maxDrawingsPerBatch ctx) (maxGPUTextures ctx) (textureManager ctx) b
            (make_command ctx g args)"
  proof -
    have "Suc (length (textures b)) \<le> maxGPUTextures ctx" if "?t \<notin> set (textures b)"
    proof -
      have "card (insert ?t (set (textures b))) = Suc (length (textures b))"
        using that assms(2) by (simp add: distinct_card)
      with assms(4) show ?thesis by simp
    qed
    with assms(3) show ?thesis by (auto simp add: rejects_def Let_def)
  qed
  with assms(1) show ?thesis
    by (simp add: batches_drawImage_Some Let_def split: if_splits)
qed

lemma add_textures:
  "set (textures (fst (add tm b c))) = insert (fst (loadWebGLTexture tm (c_image c))) (set (textures b))"
  "distinct (textures b) \<Longrightarrow> distinct (textures (fst (add tm b c)))"
  by (auto simp add: add_def Let_def)

lemma one_batch_run:
  assumes "batches ctx = [b]"
    and "distinct (textures b)"
    and "length (commands b) + length calls \<le> maxDrawingsPerBatch ctx"
    and "card (set (textures b) \<union> set (referenced_textures (textureManager ctx) (map fst calls)))
           \<le> maxGPUTextures ctx"
  shows "length (batches (drawImages calls ctx)) = 1"
  using assms
proof (induction calls arbitrary: ctx b)
  case Nil
  then show ?case by simp
next
  case (Cons call calls)
  let ?g = "fst call" and ?tm = "textureManager ctx"
  let ?t = "fst (loadWebGLTexture ?tm ?g)"
  let ?rest = "set (referenced_textures (snd (loadWebGLTexture ?tm ?g)) (map fst calls))"
  let ?b = "fst (add ?tm b (make_command ctx ?g (snd call)))"
  have un: "set (textures b) \<union> set (referenced_textures ?tm (map fst (call # calls))) =
            insert ?t (set (textures b)) \<union> ?rest"
    by auto
  have "card (insert ?t (set (textures b))) \<le> card (insert ?t (set (textures b)) \<union> ?rest)"
    by (rule card_mono) auto
  with Cons.prems(4) un have t: "card (insert ?t (set (textures b))) \<le> maxGPUTextures ctx"
    by simp
  have 1: "batches (drawImage (Some ?g) (snd call) ctx) = [?b]"
    using Cons.prems t by (intro one_batch_step) simp_all
  have 2: "distinct (textures ?b)" using Cons.prems(2) by (rule add_textures(2))
  have 3: "length (commands ?b) + length calls \<le> maxDrawingsPerBatch (drawImage (Some ?g) (snd call) ctx)"
    using Cons.prems(3) by simp
  have 4: "card (set (textures ?b) \<union>
             set (referenced_textures (textureManager (drawImage (Some ?g) (snd call) ctx)) (map fst calls)))
           \<le> maxGPUTextures (drawImage (Some ?g) (snd call) ctx)"
    using Cons.prems(4) un by (simp add: add_textures(1) textureManager_drawImage_Some)
  from Cons.IH [OF 1 2 3 4] show ?case by simp
qed


text \<open>
  Claim C1 (amended). Starting with an empty batch list, a sequence of at least one
  \<open>drawImage\<close> call with valid drawables, of at most \<open>maxDrawingsPerBatch\<close> calls that
  reference at most \<open>maxGPUTextures\<close> distinct textures, leaves exactly one batch, which
  holds the commands of all the calls in the order of the calls.
\<close>

theorem one_batch:
  assumes "batches ctx = []"
    and "calls \<noteq> []"
    and "length calls \<le> maxDrawingsPerBatch ctx"
    and "card (set (referenced_textures (textureManager ctx) (map fst calls))) \<le> maxGPUTextures ctx"
  shows "map commands (batches (drawImages calls ctx)) =
           [map (\<lambda>call. make_command ctx (fst call) (snd call)) calls]"
proof -
  from assms(2) obtain call rest where calls: "calls = call # rest" by (cases calls) auto
  let ?g = "fst call" and ?tm = "textureManager ctx"
  let ?t = "fst (loadWebGLTexture ?tm ?g)"
  let ?rest = "set (referenced_textures (snd (loadWebGLTexture ?tm ?g)) (map fst rest))"
  let ?b = "fst (add ?tm new_batch (make_command ctx ?g (snd call)))"
  let ?ctx = "drawImage (Some ?g) (snd call) ctx"
  have un: "set (referenced_textures ?tm (map fst calls)) = insert ?t ?rest"
    using calls by simp
  have "card {?t} \<le> card (insert ?t ?rest)" by (rule card_mono) auto
  with assms(4) un have t: "1 \<le> maxGPUTextures ctx" by simp
  have 1: "batches ?ctx = [?b]"
    using assms(1,3) t calls by (intro one_batch_step) (simp_all add: new_batch_def)
  have 2: "distinct (textures ?b)" by (rule add_textures(2)) (simp add: new_batch_def)
  have 3: "length (commands ?b) + length rest \<le> maxDrawingsPerBatch ?ctx"
    using assms(3) calls by (simp add: new_batch_def)
  have 4: "card (set (textures ?b) \<union> set (referenced_textures (textureManager ?ctx) (map fst rest)))
           \<le> maxGPUTextures ?ctx"
    using assms(4) un by (simp add: add_textures(1) textureManager_drawImage_Some new_batch_def)
  from one_batch_run [OF 1 2 3 4] have "length (batches (drawImages calls ctx)) = 1"
    using calls by simp
  then obtain b where b: "batches (drawImages calls ctx) = [b]"
    by (cases "batches (drawImages calls ctx)") auto
  with drawImages_commands [of calls ctx] assms(1) show ?thesis by simp
qed

theorem one_batch_witness:
  "batches (new_context 5 2) = []
   \<and> mixed_calls \<noteq> []
   \<and> length mixed_calls \<le> maxDrawingsPerBatch (new_context 5 2)
   \<and> card (set (referenced_textures (textureManager (new_context 5 2)) (map fst mixed_calls)))
       \<le> maxGPUTextures (new_context 5 2)
   \<and> map (length \<circ> commands) (batches (drawImages mixed_calls (new_context 5 2))) = [3]"
proof -
  have 1: "batches (new_context 5 2) = []" by (simp add: new_context_def)
  have 2: "mixed_calls \<noteq> []" by (simp add: mixed_calls_def)
  have 3: "length mixed_calls \<le> maxDrawingsPerBatch (new_context 5 2)"
    by (simp add: mixed_calls_def new_context_def)
  have 4: "card (set (referenced_textures (textureManager (new_context 5 2)) (map fst mixed_calls)))
             \<le> maxGPUTextures (new_context 5 2)"
    by code_simp
  have "map (length \<circ> commands) (batches (drawImages mixed_calls (new_context 5 2))) =
        map length (map commands (batches (drawImages mixed_calls (new_context 5 2))))"
    by simp
  also have "\<dots> = [3]"
    unfolding one_batch [OF 1 2 3 4] by (simp add: mixed_calls_def)
  finally show ?thesis using 1 2 3 4 by simp
qed

text \<open>
  The claim as stated also covers the empty sequence, which leaves the batch list empty:
  a batch is opened by the first call only.
\<close>

theorem one_batch_counterexample:
  "length ([] :: (graphic \<times> draw_args) list) \<le> maxDrawingsPerBatch (new_context 5 2)
   \<and> card (set (referenced_textures (textureManager (new_context 5 2))
                  (map fst ([] :: (graphic \<times> draw_args) list))))
       \<le> maxGPUTextures (new_context 5 2)
   \<and> batches (drawImages [] (new_context 5 2)) = []
   \<and> length (batches (drawImages [] (new_context 5 2))) \<noteq> 1"
  by (simp add: new_context_def)

lemma full_batches_step:
  assumes "batches ctx \<noteq> []"
    and "\<forall>b\<in>set (butlast (batches ctx)). length (commands b) = maxDrawingsPerBatch ctx"
    and "0 < length (commands (last (batches ctx)))"
    and "length (commands (last (batches ctx))) \<le> maxDrawingsPerBatch ctx"
    and "textures (last (batches ctx)) = [t]"
    and "fst (loadWebGLTexture (textureManager ctx) g) = t"
  shows "batches (drawImage (Some g) args ctx) \<noteq> []
    \<and> (\<forall>b\<in>set (butlast (batches (drawImage (Some g) args ctx))).
          length (commands b) = maxDrawingsPerBatch ctx)
    \<and> 0 < length (commands (last (batches (drawImage (Some g) args ctx))))
    \<and> length (commands (last (batches (drawImage (Some g) args ctx)))) \<le> maxDrawingsPerBatch ctx
    \<and> textures (last (batches (drawImage (Some g) args ctx))) = [t]"
proof (cases "length (commands (last (batches ctx))) = maxDrawingsPerBatch ctx")
  case True
  then have r: "rejects (maxDrawingsPerBatch ctx) (maxGPUTextures ctx) (textureManager ctx)
                  (last (batches ctx)) (make_command ctx g args)"
    by (simp add: rejects_def Let_def)
  have bs: "batches (drawImage (Some g) args ctx) =
              batches ctx @ [fst (add (textureManager ctx) new_batch (make_command ctx g args))]"
    using assms(1) r by (simp add: batches_drawImage_Some Let_def)
  have all: "\<forall>b\<in>set (batches ctx). length (commands b) = maxDrawingsPerBatch ctx"
  proof
    fix b assume "b \<in> set (batches ctx)"
    then have "b \<in> set (butlast (batches ctx) @ [last (batches ctx)])"
      using assms(1) by simp
    then have "b \<in> set (butlast (batches ctx)) \<or> b = last (batches ctx)" by auto
    with assms(2) True show "length (commands b) = maxDrawingsPerBatch ctx" by auto
  qed
  from assms(3,4) have "0 < maxDrawingsPerBatch ctx" by (rule less_le_trans)
  with bs all assms(6) show ?thesis by (simp add: add_def new_batch_def Let_def)
next
  case False
  then have r: "\<not> rejects (maxDrawingsPerBatch ctx) (maxGPUTextures ctx) (textureManager ctx)
                  (last (batches ctx)) (make_command ctx g args)"
    using assms(5,6) by (simp add: rejects_def Let_def)
  have bs: "batches (drawImage (Some g) args ctx) =
              butlast (batches ctx) @
                [fst (add (textureManager ctx) (last (batches ctx)) (make_command ctx g args))]"
    using assms(1) r by (simp add: batches_drawImage_Some Let_def)
  with assms False show ?thesis by (simp add: add_def Let_def)
qed

lemma full_batches_run:
  assumes "batches ctx \<noteq> []"
    and "\<forall>b\<in>set (butlast (batches ctx)). length (commands b) = maxDrawingsPerBatch ctx"
    and "0 < length (commands (last (batches ctx)))"
    and "length (commands (last (batches ctx))) \<le> maxDrawingsPerBatch ctx"
    and "textures (last (batches ctx)) = [t]"
    and "set (referenced_textures (textureManager ctx) (map fst calls)) \<subseteq> {t}"
  shows "batches (drawImages calls ctx) \<noteq> []
    \<and> (\<forall>b\<in>set (butlast (batches (drawImages calls ctx))).
          length (commands b) = maxDrawingsPerBatch ctx)
    \<and> 0 < length (commands (last (batches (drawImages calls ctx))))
    \<and> length (commands (last (batches (drawImages calls ctx)))) \<le> maxDrawingsPerBatch ctx"
  using assms
proof (induction calls arbitrary: ctx)
  case Nil
  then show ?case by simp
next
  case (Cons call calls)
  let ?ctx = "drawImage (Some (fst call)) (snd call) ctx"
  have t: "fst (loadWebGLTexture (textureManager ctx) (fst call)) = t"
    using Cons.prems(6) by simp
  from full_batches_step [OF Cons.prems(1-5) t, of "snd call"]
  have 1: "batches ?ctx \<noteq> []"
    and 2: "\<forall>b\<in>set (butlast (batches ?ctx)). length (commands b) = maxDrawingsPerBatch ?ctx"
    and 3: "0 < length (commands (last (batches ?ctx)))"
    and 4: "length (commands (last (batches ?ctx))) \<le> maxDrawingsPerBatch ?ctx"
    and 5: "textures (last (batches ?ctx)) = [t]"
    by simp_all
  have 6: "set (referenced_textures (textureManager ?ctx) (map fst calls)) \<subseteq> {t}"
    using Cons.prems(6) by (simp add: textureManager_drawImage_Some)
  from Cons.IH [OF 1 2 3 4 5 6] show ?case by simp
qed

lemma length_concat_full:
  "\<forall>b\<in>set bs. length (commands b) = m \<Longrightarrow> length (concat (map commands bs)) = m * length bs"
  by (induction bs) simp_all

lemma ceiling_chunks:
  assumes "0 < m" and "0 < r" and "r \<le> m"
  shows "\<lceil>real (m * q + r) / real m\<rceil> = int q + 1"
proof (rule ceiling_unique)
  have "real (m * q + r) / real m = real q + real r / real m"
    using assms(1) by (simp add: field_simps)
  moreover have "0 < real r / real m" using assms by simp
  moreover have "real r / real m \<le> 1" using assms by simp
  ultimately show "real_of_int (int q + 1) - 1 < real (m * q + r) / real m"
    and "real (m * q + r) / real m \<le> real_of_int (int q + 1)"
    by simp_all
qed

lemma drawImages_one_texture:
  assumes "batches ctx = []"
    and "0 < maxDrawingsPerBatch ctx"
    and "0 < maxGPUTextures ctx"
    and "calls \<noteq> []"
    and "set (referenced_textures (textureManager ctx) (map fst calls)) \<subseteq> {t}"
  shows "int (length (batches (drawImages calls ctx))) =
           \<lceil>real (length calls) / real (maxDrawingsPerBatch ctx)\<rceil>
    \<and> (\<forall>b\<in>set (batches (drawImages calls ctx)). length (commands b) \<le> maxDrawingsPerBatch ctx)"
proof -
  from assms(4) obtain call rest where calls: "calls = call # rest" by (cases calls) auto
  let ?ctx = "drawImage (Some (fst call)) (snd call) ctx"
  let ?m = "maxDrawingsPerBatch ctx"
  let ?bs = "batches (drawImages calls ctx)"
  have t: "fst (loadWebGLTexture (textureManager ctx) (fst call)) = t"
    using assms(5) calls by simp
  have first: "batches ?ctx = [fst (add (textureManager ctx) new_batch (make_command ctx (fst call) (snd call)))]"
    using assms(1,2,3) by (intro one_batch_step) (simp_all add: new_batch_def)
  have 1: "batches ?ctx \<noteq> []"
    and 2: "\<forall>b\<in>set (butlast (batches ?ctx)). length (commands b) = maxDrawingsPerBatch ?ctx"
    and 3: "0 < length (commands (last (batches ?ctx)))"
    and 4: "length (commands (last (batches ?ctx))) \<le> maxDrawingsPerBatch ?ctx"
    and 5: "textures (last (batches ?ctx)) = [t]"
    using first assms(2) t by (simp_all add: add_def new_batch_def Let_def)
  have 6: "set (referenced_textures (textureManager ?ctx) (map fst rest)) \<subseteq> {t}"
    using assms(5) calls by (simp add: textureManager_drawImage_Some)
  from full_batches_run [OF 1 2 3 4 5 6]
  have ne: "?bs \<noteq> []"
    and full: "\<forall>b\<in>set (butlast ?bs). length (commands b) = ?m"
    and pos: "0 < length (commands (last ?bs))"
    and le: "length (commands (last ?bs)) \<le> ?m"
    using calls by simp_all
  have "concat (map commands ?bs) = concat (map commands (butlast ?bs)) @ commands (last ?bs)"
    using ne by (simp add: concat_butlast_last)
  moreover have "length (concat (map commands (butlast ?bs))) = ?m * length (butlast ?bs)"
    using full by (rule length_concat_full)
  ultimately have "length (concat (map commands ?bs)) =
             ?m * length (butlast ?bs) + length (commands (last ?bs))"
    by simp
  moreover have "length (concat (map commands ?bs)) = length calls"
    using assms(1) by (simp add: drawImages_commands)
  ultimately have n: "length calls = ?m * (length ?bs - 1) + length (commands (last ?bs))"
    by simp
  have "\<lceil>real (length calls) / real ?m\<rceil> = int (length ?bs - 1) + 1"
    unfolding n using assms(2) pos le by (rule ceiling_chunks)
  also have "\<dots> = int (length ?bs)" using ne by (cases ?bs) simp_all
  finally have count: "int (length ?bs) = \<lceil>real (length calls) / real ?m\<rceil>" by simp
  have cap: "\<forall>b\<in>set ?bs. length (commands b) \<le> ?m"
  proof
    fix b assume "b \<in> set ?bs"
    then have "b \<in> set (butlast ?bs @ [last ?bs])" using ne by simp
    then have "b \<in> set (butlast ?bs) \<or> b = last ?bs" by auto
    with full le show "length (commands b) \<le> ?m" by auto
  qed
  from count cap show ?thesis by simp
qed


text \<open>
  Claim C2. Starting with an empty batch list, with positive limits, \<open>N\<close> calls that all
  reference one texture, \<open>N > maxDrawingsPerBatch\<close>, leave
  \<open>ceil (N / maxDrawingsPerBatch)\<close> batches; no batch holds more than
  \<open>maxDrawingsPerBatch\<close> commands; and the commands of the batches, concatenated in the
  order of the batches, are the commands of the calls in the order of the calls.
\<close>

theorem chunked_batches:
  assumes "batches ctx = []"
    and "0 < maxDrawingsPerBatch ctx"
    and "0 < maxGPUTextures ctx"
    and "maxDrawingsPerBatch ctx < length calls"
    and "card (set (referenced_textures (textureManager ctx) (map fst calls))) = 1"
  shows "int (length (batches (drawImages calls ctx))) =
           \<lceil>real (length calls) / real (maxDrawingsPerBatch ctx)\<rceil>
    \<and> (\<forall>b\<in>set (batches (drawImages calls ctx)). length (commands b) \<le> maxDrawingsPerBatch ctx)
    \<and> concat (map commands (batches (drawImages calls ctx))) =
        map (\<lambda>call. make_command ctx (fst call) (snd call)) calls"
proof -
  from assms(5) obtain t where "set (referenced_textures (textureManager ctx) (map fst calls)) = {t}"
    by (rule card_1_singletonE)
  then have t: "set (referenced_textures (textureManager ctx) (map fst calls)) \<subseteq> {t}" by simp
  from assms(4) have ne: "calls \<noteq> []" by auto
  from drawImages_one_texture [OF assms(1,2,3) ne t] drawImages_commands [of calls ctx] assms(1)
  show ?thesis by simp
qed

theorem chunked_batches_witness:
  "batches (new_context 2 8) = []
   \<and> 0 < maxDrawingsPerBatch (new_context 2 8)
   \<and> 0 < maxGPUTextures (new_context 2 8)
   \<and> maxDrawingsPerBatch (new_context 2 8) < length five_calls
   \<and> card (set (referenced_textures (textureManager (new_context 2 8)) (map fst five_calls))) = 1
   \<and> length (batches (drawImages five_calls (new_context 2 8))) = 3
   \<and> map (map c_dest) (map commands (batches (drawImages five_calls (new_context 2 8)))) =
       [[(0, 0), (1, 0)], [(2, 0), (3, 0)], [(4, 0)]]"
proof -
  have 1: "batches (new_context 2 8) = []" by (simp add: new_context_def)
  have 2: "0 < maxDrawingsPerBatch (new_context 2 8)" by (simp add: new_context_def)
  have 3: "0 < maxGPUTextures (new_context 2 8)" by (simp add: new_context_def)
  have 4: "maxDrawingsPerBatch (new_context 2 8) < length five_calls"
    by (simp add: new_context_def five_calls_def)
  have 5: "card (set (referenced_textures (textureManager (new_context 2 8)) (map fst five_calls))) = 1"
    by code_simp
  have 6: "\<lceil>real (length five_calls) / real (maxDrawingsPerBatch (new_context 2 8))\<rceil> = 3"
    by (simp add: new_context_def five_calls_def)
  have 7: "map (map c_dest) (map commands (batches (drawImages five_calls (new_context 2 8)))) =
             [[(0, 0), (1, 0)], [(2, 0), (3, 0)], [(4, 0)]]"
    by code_simp
  from chunked_batches [OF 1 2 3 4 5] 1 2 3 4 5 6 7 show ?thesis by simp
qed

end
